theory Spec2Isabelle
  imports Complex_Main
begin

section \<open>Errors\<close>

text \<open>
  Every \<^verbatim>\<open>throw new Error(...)\<close> of the sources is a constructor; a rejection that the
  code only passes on (a network failure, an abort at the deadline, a body that is not
  JSON) is \<open>Rejected\<close> with its message.
\<close>

datatype error =
    Rejected string
  | RpcHttp string nat          \<comment> \<open>\<^verbatim>\<open>rpc ${method} http ${r.status}\<close>\<close>
  | RpcError string string      \<comment> \<open>\<^verbatim>\<open>rpc ${method} error: ${j.error.message}\<close>\<close>
  | RpcCallHttp nat string      \<comment> \<open>\<^verbatim>\<open>RPC HTTP ${r.status}: ${text.slice(0,400)}\<close>\<close>
  | RpcCallError string         \<comment> \<open>\<^verbatim>\<open>RPC Error: ${JSON.stringify(data.error)}\<close>\<close>
  | HeliusHttp nat              \<comment> \<open>\<^verbatim>\<open>helius http ${r.status}\<close>\<close>
  | InvalidPubkey               \<comment> \<open>\<^verbatim>\<open>invalid pubkey/mint\<close>\<close>
  | PoolReservesZero            \<comment> \<open>\<^verbatim>\<open>pool reserves are zero\<close>\<close>

section \<open>The retrying JSON-RPC clients\<close>

text \<open>
  What the network does with one dispatched request: \<open>NoReply e\<close> when \<^verbatim>\<open>fetch\<close>
  rejects with \<open>e\<close>, otherwise \<open>Reply status text json\<close> with the HTTP status, the body
  text and the body as a JSON-RPC envelope when it parses. An envelope holds its
  \<^verbatim>\<open>error\<close> member (as text) and its \<^verbatim>\<open>result\<close> member, each possibly absent.
\<close>

datatype 'a envelope = Envelope "string option" "'a option"

datatype 'a reply = NoReply error | Reply nat string "'a envelope option"

datatype event = Attempt | Sleep nat

definition http_ok :: "nat \<Rightarrow> bool" where
  "http_ok status = (200 \<le> status \<and> status \<le> 299)"

text \<open>The body of the \<^verbatim>\<open>try\<close> block of \<^verbatim>\<open>rpc\<close> (the analytics server).\<close>

fun rpc_attempt :: "string \<Rightarrow> 'a reply \<Rightarrow> error + 'a option" where
  "rpc_attempt method (NoReply e) = Inl e"
| "rpc_attempt method (Reply status text j) =
     (if \<not> http_ok status then Inl (RpcHttp method status)
      else case j of
        None \<Rightarrow> Inl (Rejected ''SyntaxError'')
      | Some (Envelope (Some msg) res) \<Rightarrow> Inl (RpcError method msg)
      | Some (Envelope None res) \<Rightarrow> Inr res)"

text \<open>
  \<^verbatim>\<open>for (let i = 0; i <= RPC_MAX_RETRIES; i++) { try { ... return j.result; }
     catch (e) { if (i === RPC_MAX_RETRIES) throw e; await sleep(250 * (i + 1)); } }\<close>
  The retry count is a natural number; \<open>net i\<close> is the network's answer to the request
  dispatched in iteration \<open>i\<close>. The function returns the trace of attempts and sleeps
  (milliseconds) with the outcome. Leaving the loop without a return yields
  \<^verbatim>\<open>undefined\<close>.
\<close>

function rpc_from :: "nat \<Rightarrow> string \<Rightarrow> (nat \<Rightarrow> 'a reply) \<Rightarrow> nat \<Rightarrow> event list \<times> (error + 'a option)" where
  "rpc_from max_retries method net i =
     (if i \<le> max_retries then
        (case rpc_attempt method (net i) of
           Inr res \<Rightarrow> ([Attempt], Inr res)
         | Inl e \<Rightarrow>
             if i = max_retries then ([Attempt], Inl e)
             else (let (tr, out) = rpc_from max_retries method net (i + 1)
                   in (Attempt # Sleep (250 * (i + 1)) # tr, out)))
      else ([], Inr None))"
  by pat_completeness auto
termination
  by (relation "measure (\<lambda>(m, method, net, i). Suc m - i)") auto

declare rpc_from.simps [simp del]

definition rpc :: "nat \<Rightarrow> string \<Rightarrow> (nat \<Rightarrow> 'a reply) \<Rightarrow> event list \<times> (error + 'a option)" where
  "rpc max_retries method net = rpc_from max_retries method net 0"

text \<open>The body of the \<^verbatim>\<open>try\<close> block of \<^verbatim>\<open>rpcCall\<close> (the plain proxy).\<close>

fun rpcCall_attempt :: "'a reply \<Rightarrow> error + 'a option" where
  "rpcCall_attempt (NoReply e) = Inl e"
| "rpcCall_attempt (Reply status text j) =
     (if \<not> http_ok status then Inl (RpcCallHttp status (take 400 text))
      else case j of
        None \<Rightarrow> Inr None
      | Some (Envelope (Some err) res) \<Rightarrow> Inl (RpcCallError err)
      | Some (Envelope None res) \<Rightarrow> Inr res)"

text \<open>
  \<^verbatim>\<open>let attempt = 0; while (true) { try { ... return data?.result; }
     catch (e) { attempt += 1; if (attempt > RPC_MAX_RETRIES) throw e;
                 await sleep(Math.min(250 * attempt, 1500)); } }\<close>
\<close>

function rpcCall_from :: "nat \<Rightarrow> (nat \<Rightarrow> 'a reply) \<Rightarrow> nat \<Rightarrow> event list \<times> (error + 'a option)" where
  "rpcCall_from max_retries net attempt =
     (case rpcCall_attempt (net attempt) of
        Inr res \<Rightarrow> ([Attempt], Inr res)
      | Inl e \<Rightarrow>
          if attempt + 1 > max_retries then ([Attempt], Inl e)
          else (let (tr, out) = rpcCall_from max_retries net (attempt + 1)
                in (Attempt # Sleep (min (250 * (attempt + 1)) 1500) # tr, out)))"
  by pat_completeness auto
termination
  by (relation "measure (\<lambda>(m, net, attempt). m - attempt)") auto

declare rpcCall_from.simps [simp del]

definition rpcCall :: "nat \<Rightarrow> (nat \<Rightarrow> 'a reply) \<Rightarrow> event list \<times> (error + 'a option)" where
  "rpcCall max_retries net = rpcCall_from max_retries net 0"

text \<open>Reading a trace: how many requests were dispatched, and the sleeps between them.\<close>

fun attempts :: "event list \<Rightarrow> nat" where
  "attempts [] = 0"
| "attempts (Attempt # tr) = Suc (attempts tr)"
| "attempts (Sleep d # tr) = attempts tr"

fun delays :: "event list \<Rightarrow> nat list" where
  "delays [] = []"
| "delays (Attempt # tr) = delays tr"
| "delays (Sleep d # tr) = d # delays tr"

text \<open>
  The REST helper of the analytics server has no loop:
  \<^verbatim>\<open>const r = await limiter.schedule(() => fetch(url));
  if (!r.ok) throw new Error(`helius http ${r.status}`); return r.json();\<close>
  It dispatches one request, \<open>net 0\<close>, and returns the parsed body.
\<close>

fun heliusGET_attempt :: "'a reply \<Rightarrow> error + 'a envelope" where
  "heliusGET_attempt (NoReply e) = Inl e"
| "heliusGET_attempt (Reply status text j) =
     (if \<not> http_ok status then Inl (HeliusHttp status)
      else case j of None \<Rightarrow> Inl (Rejected ''SyntaxError'') | Some body \<Rightarrow> Inr body)"

definition heliusGET :: "(nat \<Rightarrow> 'a reply) \<Rightarrow> event list \<times> (error + 'a envelope)" where
  "heliusGET net = ([Attempt], heliusGET_attempt (net 0))"

text \<open>\<^verbatim>\<open>const RPC_MAX_RETRIES = Number(process.env.RPC_MAX_RETRIES || 3);\<close>\<close>

definition default_RPC_MAX_RETRIES :: nat where
  "default_RPC_MAX_RETRIES = 3"

section \<open>Numbers\<close>

text \<open>
  A JavaScript Number is a double. Where the code only compares numbers or passes them
  on, and in the sums and quotients of the pricing and liquidity functions, it is
  modelled as a real, with exact arithmetic. A \<open>number\<close> keeps \<^verbatim>\<open>NaN\<close> and the
  infinities apart from the finite values; the sign of a zero is not modelled.
\<close>

datatype number = Num real | NaN | PosInf | NegInf

definition js_div :: "real \<Rightarrow> real \<Rightarrow> number" where
  "js_div x y =
     (if y \<noteq> 0 then Num (x / y)
      else if x = 0 then NaN else if 0 < x then PosInf else NegInf)"

text \<open>A \<open>number\<close> times a finite number.\<close>

fun js_times :: "number \<Rightarrow> real \<Rightarrow> number" where
  "js_times (Num x) c = Num (x * c)"
| "js_times NaN c = NaN"
| "js_times PosInf c = (if c = 0 then NaN else if 0 < c then PosInf else NegInf)"
| "js_times NegInf c = (if c = 0 then NaN else if 0 < c then NegInf else PosInf)"

text \<open>The comparison \<^verbatim>\<open><=\<close>: false as soon as one side is \<^verbatim>\<open>NaN\<close>.\<close>

fun js_le :: "number \<Rightarrow> number \<Rightarrow> bool" where
  "js_le (Num x) (Num y) = (x \<le> y)"
| "js_le NaN b = False"
| "js_le a NaN = False"
| "js_le NegInf b = True"
| "js_le a PosInf = True"
| "js_le PosInf b = False"
| "js_le a NegInf = False"

text \<open>
  Arithmetic on doubles, for the functions whose claims turn on rounding, overflow or
  underflow. A finite operation computes the exact real and rounds it: \<open>rnd x\<close> is the
  double nearest to \<open>x\<close>, an infinity when \<open>x\<close> is beyond the range of the doubles,
  and \<open>Num 0\<close> when \<open>x\<close> is too small. The rounding is a parameter of these functions;
  \<open>rounding\<close> lists what the proofs use of it, all of which holds of rounding to
  nearest: it never yields \<^verbatim>\<open>NaN\<close>, it is monotone, it leaves its own results
  unchanged, and 0, 1 and 100 are doubles.
\<close>

definition rounding :: "(real \<Rightarrow> number) \<Rightarrow> bool" where
  "rounding rnd \<longleftrightarrow>
     (\<forall>x. rnd x \<noteq> NaN) \<and>
     (\<forall>x y. x \<le> y \<longrightarrow> js_le (rnd x) (rnd y)) \<and>
     (\<forall>x y. rnd x = Num y \<longrightarrow> rnd y = Num y) \<and>
     rnd 0 = Num 0 \<and> rnd 1 = Num 1 \<and> rnd 100 = Num 100"

fun negative :: "number \<Rightarrow> bool" where
  "negative (Num x) = (x < 0)"
| "negative NegInf = True"
| "negative n = False"

definition signed_inf :: "bool \<Rightarrow> number" where
  "signed_inf neg = (if neg then NegInf else PosInf)"

fun fl_add :: "(real \<Rightarrow> number) \<Rightarrow> number \<Rightarrow> number \<Rightarrow> number" where
  "fl_add rnd (Num x) (Num y) = rnd (x + y)"
| "fl_add rnd NaN b = NaN"
| "fl_add rnd a NaN = NaN"
| "fl_add rnd PosInf NegInf = NaN"
| "fl_add rnd NegInf PosInf = NaN"
| "fl_add rnd PosInf b = PosInf"
| "fl_add rnd NegInf b = NegInf"
| "fl_add rnd a PosInf = PosInf"
| "fl_add rnd a NegInf = NegInf"

text \<open>An infinity times zero is \<^verbatim>\<open>NaN\<close>; otherwise an infinite product has the sign of its factors.\<close>

fun fl_mul :: "(real \<Rightarrow> number) \<Rightarrow> number \<Rightarrow> number \<Rightarrow> number" where
  "fl_mul rnd (Num x) (Num y) = rnd (x * y)"
| "fl_mul rnd NaN b = NaN"
| "fl_mul rnd a NaN = NaN"
| "fl_mul rnd a b =
     (if a = Num 0 \<or> b = Num 0 then NaN else signed_inf (negative a \<noteq> negative b))"

text \<open>
  A finite number over zero is \<^verbatim>\<open>NaN\<close> for \<open>0 / 0\<close> and an infinity otherwise; a
  finite number over an infinity is 0; an infinity over an infinity is \<^verbatim>\<open>NaN\<close>.
\<close>

fun fl_div :: "(real \<Rightarrow> number) \<Rightarrow> number \<Rightarrow> number \<Rightarrow> number" where
  "fl_div rnd NaN b = NaN"
| "fl_div rnd a NaN = NaN"
| "fl_div rnd (Num x) (Num y) =
     (if y \<noteq> 0 then rnd (x / y) else if x = 0 then NaN else signed_inf (x < 0))"
| "fl_div rnd (Num x) b = Num 0"
| "fl_div rnd a (Num y) = signed_inf (negative a \<noteq> (y < 0))"
| "fl_div rnd a b = NaN"

text \<open>A \<open>number\<close> as a condition: \<open>0\<close> and \<^verbatim>\<open>NaN\<close> are falsy.\<close>

definition js_truthy :: "number \<Rightarrow> bool" where
  "js_truthy n = (n \<noteq> Num 0 \<and> n \<noteq> NaN)"

text \<open>
  \<^verbatim>\<open>x || d\<close> for a number \<open>x\<close> that may be absent (\<^verbatim>\<open>undefined\<close> or \<^verbatim>\<open>null\<close>):
  the default stands in for an absent value and for the falsy number \<open>0\<close>.
\<close>

definition js_or :: "real option \<Rightarrow> real \<Rightarrow> real" where
  "js_or x d = (case x of None \<Rightarrow> d | Some v \<Rightarrow> if v = 0 then d else v)"

text \<open>The same for a \<open>number\<close>, where \<^verbatim>\<open>NaN\<close> is falsy too.\<close>

definition js_or_number :: "number option \<Rightarrow> number \<Rightarrow> number" where
  "js_or_number x d =
     (case x of None \<Rightarrow> d | Some (Num v) \<Rightarrow> if v = 0 then d else Num v
      | Some NaN \<Rightarrow> d | Some n \<Rightarrow> n)"

text \<open>A string is truthy when it is present and not empty.\<close>

definition truthy :: "string option \<Rightarrow> bool" where
  "truthy s = (s \<noteq> None \<and> s \<noteq> Some [])"

section \<open>Scoring\<close>

record weights =
  w_lpCount :: real
  w_lpLocked :: real
  w_holdersDist :: real
  w_activity :: real
  w_vip :: real
  w_revival :: real
  w_age :: real
  w_fdvToMc :: real

text \<open>
  The inputs of \<^verbatim>\<open>scoreToken\<close>. A field the function guards with \<^verbatim>\<open>||\<close> or
  \<^verbatim>\<open>?.\<close> may be absent; \<open>activity24h_traders\<close> is \<^verbatim>\<open>inputs.activity24h?.traders\<close>.
\<close>

record score_inputs =
  lpProviders :: real
  lpProvidersMin :: real
  lpLockedPct :: real
  lpLockedMinPct :: real
  concentrationTop1Pct :: real
  maxTop1Pct :: real
  concentrationTop10Pct :: real
  maxTop10Pct :: real
  activity24h_traders :: "real option"
  minTraders24h :: "real option"
  vipHits :: "real option"
  revivalActive :: bool
  tokenAgeDays :: real
  maxAgeDays :: "real option"
  fdvToMc :: "real option"
  weights :: "weights option"

record score_result =
  score :: real
  reasons :: "string list"

definition default_weights :: weights where
  "default_weights =
     \<lparr>w_lpCount = 2, w_lpLocked = 2, w_holdersDist = 2, w_activity = 1,
      w_vip = 1, w_revival = 1, w_age = 1, w_fdvToMc = 1\<rparr>"

text \<open>\<^verbatim>\<open>inputs.weights || { ...defaults }\<close>\<close>

definition weights_of :: "score_inputs \<Rightarrow> weights" where
  "weights_of inputs = (case weights inputs of None \<Rightarrow> default_weights | Some w \<Rightarrow> w)"

text \<open>
  The two forms a line of \<^verbatim>\<open>scoreToken\<close> takes, on the running score and reasons:
  \<^verbatim>\<open>if (c) score += p; else reasons.push(r)\<close> and \<^verbatim>\<open>if (c) score += p;\<close>.
\<close>

definition add_or_push :: "bool \<Rightarrow> real \<Rightarrow> string \<Rightarrow> real \<times> string list \<Rightarrow> real \<times> string list" where
  "add_or_push c p r st = (if c then (fst st + p, snd st) else (fst st, snd st @ [r]))"

definition add_if :: "bool \<Rightarrow> real \<Rightarrow> real \<times> string list \<Rightarrow> real \<times> string list" where
  "add_if c p st = (if c then (fst st + p, snd st) else st)"

definition scoreToken :: "score_inputs \<Rightarrow> score_result" where
  "scoreToken inputs =
     (let w = weights_of inputs;
          st = (0, []);
          st = add_or_push (lpProviders inputs \<ge> lpProvidersMin inputs)
                 (10 * w_lpCount w) ''LP providers below threshold'' st;
          st = add_or_push (lpLockedPct inputs \<ge> lpLockedMinPct inputs)
                 (8 * w_lpLocked w) ''LP locked pct low'' st;
          st = add_or_push (concentrationTop1Pct inputs \<le> maxTop1Pct inputs)
                 (6 * w_holdersDist w) ''Top1 concentration high'' st;
          st = add_or_push (concentrationTop10Pct inputs \<le> maxTop10Pct inputs)
                 (6 * w_holdersDist w) ''Top10 concentration high'' st;
          st = add_or_push (js_or (activity24h_traders inputs) 0 \<ge> js_or (minTraders24h inputs) 0)
                 (5 * w_activity w) ''Low traders 24h'' st;
          st = add_if (js_or (vipHits inputs) 0 > 0) (4 * w_vip w) st;
          st = add_if (revivalActive inputs) (3 * w_revival w) st;
          st = add_if (tokenAgeDays inputs \<le> js_or (maxAgeDays inputs) 0.25) (2 * w_age w) st;
          st = add_if (js_or (fdvToMc inputs) 1 \<ge> 0.9 \<and> js_or (fdvToMc inputs) 1 \<le> 1.1)
                 (4 * w_fdvToMc w) st
      in \<lparr>score = fst st, reasons = snd st\<rparr>)"

section \<open>FDV to market cap\<close>

record mcap_result =
  mcap_fdv_usd :: number
  marketcap_usd :: number
  fdv_to_mcap :: "number option"

text \<open>
  \<^verbatim>\<open>const fdv = price * totalSupply;
  const mc = price * (circulatingSupply ?? totalSupply);
  return { fdv_usd: fdv, marketcap_usd: mc, fdv_to_mcap: mc ? fdv/mc : null };\<close>
  The arguments are any numbers; \<^verbatim>\<open>??\<close> takes the total supply for an absent
  circulating supply; \<^verbatim>\<open>null\<close> is \<open>None\<close>.
\<close>

definition fdvToMcap :: "(real \<Rightarrow> number) \<Rightarrow> number \<Rightarrow> number \<Rightarrow> number option \<Rightarrow> mcap_result" where
  "fdvToMcap rnd price totalSupply circulatingSupply =
     (let fdv = fl_mul rnd price totalSupply;
          mc = fl_mul rnd price
                 (case circulatingSupply of None \<Rightarrow> totalSupply | Some c \<Rightarrow> c)
      in \<lparr>mcap_fdv_usd = fdv, marketcap_usd = mc,
          fdv_to_mcap = (if js_truthy mc then Some (fl_div rnd fdv mc) else None)\<rparr>)"

section \<open>The upstream\<close>

definition USDC_MINT :: string where
  "USDC_MINT = ''EPjFWdd5AufqSSqeM2qN1xzybapC8G4wEGGkZwyTDt1v''"

definition TOKEN_PROGRAM :: string where
  "TOKEN_PROGRAM = ''TokenkegQfeZyiNwAJbNbGKPFXCWuBvf9Ss623VQ5DA''"

definition TOKEN_2022_PROGRAM :: string where
  "TOKEN_2022_PROGRAM = ''TokenzQdBNbLqPSEvdnKAS6EPFCLPiNnBhqCxEPcXfwE''"

text \<open>The parsed account data the code reads: \<^verbatim>\<open>info.mint\<close> of a token account.\<close>

record account_info =
  info_mint :: "string option"

text \<open>
  A row of \<^verbatim>\<open>getProgramAccounts\<close> is its \<^verbatim>\<open>row?.account?.data?.parsed?.info\<close>,
  absent or holding \<^verbatim>\<open>owner\<close> and \<^verbatim>\<open>tokenAmount?.uiAmount\<close>.
\<close>

record token_info =
  owner :: string
  uiAmount :: "real option"

type_synonym row = "token_info option"

record transfer =
  t_mint :: "string option"
  tokenAmount :: "real option"
  fromUserAccount :: "string option"
  toUserAccount :: "string option"

record transaction =
  blockTime :: "int option"
  tokenTransfers :: "transfer list option"

text \<open>
  What the upstream answers: for each JSON-RPC method the code calls, the outcome of
  \<^verbatim>\<open>rpc(method, params)\<close> after its retries as a function of the parameters; the
  outcome of \<^verbatim>\<open>heliusGET\<close> on the history URL of an address; and the clock,
  \<^verbatim>\<open>Math.floor(Date.now()/1000)\<close>. A supply or balance answer is
  \<^verbatim>\<open>(value.amount, value.decimals)\<close>. Within one call of an analytic the same request
  gets the same answer.
\<close>

record upstream =
  rpc_getTokenSupply :: "string \<Rightarrow> error + (int \<times> nat)"
  rpc_getTokenAccountBalance :: "string \<Rightarrow> error + (int \<times> nat)"
  rpc_getAccountInfo :: "string \<Rightarrow> error + account_info option"
  rpc_getProgramAccounts :: "string \<Rightarrow> string \<Rightarrow> error + row list option"
  heliusGET_history :: "string \<Rightarrow> error + transaction list"
  now :: int

text \<open>
  \<^verbatim>\<open>await\<close>: a rejected promise ends the function with its error. Where the code
  awaits \<^verbatim>\<open>Promise.all\<close>, the promises are awaited here in the order they are listed.
\<close>

definition await :: "error + 'a \<Rightarrow> ('a \<Rightarrow> error + 'b) \<Rightarrow> error + 'b" where
  "await p k = (case p of Inl e \<Rightarrow> Inl e | Inr v \<Rightarrow> k v)"

definition assertPubkey :: "string \<Rightarrow> error + unit" where
  "assertPubkey x = (if length x < 32 then Inl InvalidPubkey else Inr ())"

definition uiFromRaw :: "int \<Rightarrow> nat \<Rightarrow> real" where
  "uiFromRaw amountBN dec = real_of_int amountBN / 10 ^ dec"

record balance =
  amount :: int
  decimals :: nat
  ui :: real

definition getAccountInfoParsed :: "upstream \<Rightarrow> string \<Rightarrow> error + account_info option" where
  "getAccountInfoParsed u pubkey = await (rpc_getAccountInfo u pubkey) (\<lambda>r. Inr r)"

definition getMintSupply :: "upstream \<Rightarrow> string \<Rightarrow> error + balance" where
  "getMintSupply u mint =
     await (assertPubkey mint) (\<lambda>_.
     await (rpc_getTokenSupply u mint) (\<lambda>(a, d).
       Inr \<lparr>amount = a, decimals = d, ui = uiFromRaw a d\<rparr>))"

definition getTokenAccountBalance :: "upstream \<Rightarrow> string \<Rightarrow> error + balance" where
  "getTokenAccountBalance u ta =
     await (rpc_getTokenAccountBalance u ta) (\<lambda>(a, d).
       Inr \<lparr>amount = a, decimals = d, ui = uiFromRaw a d\<rparr>)"

text \<open>\<^verbatim>\<open>Array.isArray(r) ? r : []\<close>\<close>

definition getProgramAccountsByMint :: "upstream \<Rightarrow> string \<Rightarrow> string \<Rightarrow> error + row list" where
  "getProgramAccountsByMint u mint programId =
     await (rpc_getProgramAccounts u programId mint) (\<lambda>r.
       Inr (case r of Some rows \<Rightarrow> rows | None \<Rightarrow> []))"

section \<open>Price and FDV from pool reserves\<close>

record reserves =
  usdc :: balance
  tok :: balance
  tokMint :: "string option"
  usdcMint :: "string option"

text \<open>
  \<^verbatim>\<open>let usdc = ax, tok = ay, tokMint = mintY, usdcMint = mintX;
  if (mintY === USDC_MINT) { usdc = ay; tok = ax; usdcMint = mintY; tokMint = mintX; }
  if (mintX === USDC_MINT) { usdc = ax; tok = ay; usdcMint = mintX; tokMint = mintY; }
  if (!usdcMint && ay.decimals === 6 && ax.decimals !== 6) { usdc = ay; tok = ax; }\<close>
\<close>

definition poolReserves :: "upstream \<Rightarrow> string \<Rightarrow> string \<Rightarrow> error + reserves" where
  "poolReserves u reserveX reserveY =
     await (getTokenAccountBalance u reserveX) (\<lambda>ax.
     await (getTokenAccountBalance u reserveY) (\<lambda>ay.
     await (getAccountInfoParsed u reserveX) (\<lambda>ix.
     await (getAccountInfoParsed u reserveY) (\<lambda>iy.
       let mintX = (case ix of None \<Rightarrow> None | Some i \<Rightarrow> info_mint i);
           mintY = (case iy of None \<Rightarrow> None | Some i \<Rightarrow> info_mint i);
           r = \<lparr>usdc = ax, tok = ay, tokMint = mintY, usdcMint = mintX\<rparr>;
           r = (if mintY = Some USDC_MINT
                then \<lparr>usdc = ay, tok = ax, tokMint = mintX, usdcMint = mintY\<rparr> else r);
           r = (if mintX = Some USDC_MINT
                then \<lparr>usdc = ax, tok = ay, tokMint = mintY, usdcMint = mintX\<rparr> else r);
           r = (if \<not> truthy (usdcMint r) \<and> decimals ay = 6 \<and> decimals ax \<noteq> 6
                then r\<lparr>usdc := ay, tok := ax\<rparr> else r)
       in Inr r))))"

record price_fdv =
  price_usd :: number
  fdv_usd :: number
  total_supply :: real
  pool_usdc :: real
  pool_token :: real

definition priceAndFDVFromReserves :: "upstream \<Rightarrow> string \<Rightarrow> string \<Rightarrow> string \<Rightarrow> error + price_fdv" where
  "priceAndFDVFromReserves u tokenMint reserveX reserveY =
     await (poolReserves u reserveX reserveY) (\<lambda>r.
       if ui (tok r) \<le> 0 \<or> ui (usdc r) \<le> 0 then Inl PoolReservesZero
       else
         let price = js_div (ui (usdc r)) (ui (tok r))
         in await (getMintSupply u tokenMint) (\<lambda>sup.
              let fdv = js_times price (ui sup)
              in Inr \<lparr>price_usd = price, fdv_usd = fdv, total_supply = ui sup,
                      pool_usdc = ui (usdc r), pool_token = ui (tok r)\<rparr>))"

section \<open>Locked liquidity\<close>

record lp_locked =
  lp_total_supply :: real
  locked_ui :: real
  locked_pct :: number

definition lpLockedPercent :: "upstream \<Rightarrow> string \<Rightarrow> string list \<Rightarrow> error + lp_locked" where
  "lpLockedPercent u lpMint lockerOwners =
     await (getProgramAccountsByMint u lpMint TOKEN_PROGRAM) (\<lambda>v1.
     await (getProgramAccountsByMint u lpMint TOKEN_2022_PROGRAM) (\<lambda>v2.
     await (getMintSupply u lpMint) (\<lambda>sup.
       let locked = fold (\<lambda>row locked. case row of
                       None \<Rightarrow> locked
                     | Some info \<Rightarrow>
                         if owner info \<in> set lockerOwners
                         then locked + js_or (uiAmount info) 0 else locked)
                     (v1 @ v2) 0
       in Inr \<lparr>lp_total_supply = ui sup, locked_ui = locked,
               locked_pct = (if ui sup \<noteq> 0 then js_times (js_div locked (ui sup)) 100
                             else Num 0)\<rparr>)))"

section \<open>Top holders\<close>

record holder =
  rank :: nat
  holder_owner :: string
  holder_amount :: real
  pct_of_supply :: number

record holders =
  supply_ui :: real
  total_accounts :: nat
  top_holders :: "holder list"
  concentration_top1_pct :: number
  concentration_top10_pct :: number

text \<open>
  \<^verbatim>\<open>items.sort((a,b)=>b.ui-a.ui)\<close> is a stable sort by descending balance;
  \<^verbatim>\<open>slice(0, limit)\<close> and \<^verbatim>\<open>slice(0,10)\<close> are \<open>take\<close>; \<^verbatim>\<open>reduce\<close> adds from
  the left, starting at \<open>0\<close>. The quotient, the product and the sum round to doubles:
  \<^verbatim>\<open>pct_of_supply: sup.ui ? (x.ui/sup.ui)*100 : 0\<close>.
\<close>

definition topHolders :: "(real \<Rightarrow> number) \<Rightarrow> upstream \<Rightarrow> string \<Rightarrow> nat \<Rightarrow> error + holders" where
  "topHolders rnd u mint limit =
     await (getProgramAccountsByMint u mint TOKEN_PROGRAM) (\<lambda>v1.
     await (getProgramAccountsByMint u mint TOKEN_2022_PROGRAM) (\<lambda>v2.
     await (getMintSupply u mint) (\<lambda>sup.
       let items = fold (\<lambda>row items. case row of
                      None \<Rightarrow> items
                    | Some info \<Rightarrow>
                        let x = js_or (uiAmount info) 0
                        in if x > 0 then items @ [(owner info, x)] else items)
                    (v1 @ v2) [];
           sorted_items = sort_key (\<lambda>x. - snd x) items;
           top_entries = map (\<lambda>(i, x).
                   \<lparr>rank = i + 1, holder_owner = fst x, holder_amount = snd x,
                    pct_of_supply =
                      (if ui sup \<noteq> 0
                       then fl_mul rnd (fl_div rnd (Num (snd x)) (Num (ui sup))) (Num 100)
                       else Num 0)\<rparr>)
                   (enumerate 0 (take limit sorted_items));
           top1 = js_or_number (case top_entries of [] \<Rightarrow> None | h # _ \<Rightarrow> Some (pct_of_supply h))
                    (Num 0);
           top10 = foldl (\<lambda>s x. fl_add rnd s (pct_of_supply x)) (Num 0) (take 10 top_entries)
       in Inr \<lparr>supply_ui = ui sup, total_accounts = length items, top_holders = top_entries,
               concentration_top1_pct = top1, concentration_top10_pct = top10\<rparr>)))"

section \<open>Activity windows\<close>

record window_stats =
  tx :: nat
  volume_usdc :: real
  unique_actors :: nat

text \<open>
  \<^verbatim>\<open>results\<close> and \<^verbatim>\<open>actorSets\<close> are objects keyed by the window length. The loops
  only reach keys that the initialisation has set, so the update of an absent key has
  no case of its own.
\<close>

type_synonym results = "real \<rightharpoonup> window_stats"
type_synonym actor_sets = "real \<rightharpoonup> string set"

definition update_stats :: "real \<Rightarrow> (window_stats \<Rightarrow> window_stats) \<Rightarrow> results \<Rightarrow> results" where
  "update_stats w f res = (case res w of None \<Rightarrow> res | Some s \<Rightarrow> res(w \<mapsto> f s))"

definition add_actor :: "real \<Rightarrow> string option \<Rightarrow> actor_sets \<Rightarrow> actor_sets" where
  "add_actor w a acts =
     (case a of
        None \<Rightarrow> acts
      | Some x \<Rightarrow> if x = [] then acts
                  else (case acts w of None \<Rightarrow> acts | Some A \<Rightarrow> acts(w \<mapsto> insert x A)))"

text \<open>
  \<^verbatim>\<open>if (t.mint === USDC_MINT) results[w].volume_usdc += Math.abs(Number(t.tokenAmount||0));
  if (t.fromUserAccount) actorSets[w].add(t.fromUserAccount);
  if (t.toUserAccount) actorSets[w].add(t.toUserAccount);\<close>
\<close>

definition count_transfer :: "real \<Rightarrow> transfer \<Rightarrow> results \<times> actor_sets \<Rightarrow> results \<times> actor_sets" where
  "count_transfer w t st =
     (let res = fst st; acts = snd st;
          res = (if t_mint t = Some USDC_MINT
                 then update_stats w
                        (\<lambda>s. s\<lparr>volume_usdc := volume_usdc s + \<bar>js_or (tokenAmount t) 0\<bar>\<rparr>) res
                 else res);
          acts = add_actor w (fromUserAccount t) acts;
          acts = add_actor w (toUserAccount t) acts
      in (res, acts))"

text \<open>
  \<^verbatim>\<open>if (dtMin <= w) { results[w].tx += 1; for (const t of (it.tokenTransfers || [])) ... }\<close>
\<close>

definition count_in_window :: "real \<Rightarrow> transaction \<Rightarrow> real \<Rightarrow> results \<times> actor_sets \<Rightarrow> results \<times> actor_sets" where
  "count_in_window dtMin it w st =
     (if dtMin \<le> w
      then fold (count_transfer w)
             (case tokenTransfers it of None \<Rightarrow> [] | Some ts \<Rightarrow> ts)
             (update_stats w (\<lambda>s. s\<lparr>tx := tx s + 1\<rparr>) (fst st), snd st)
      else st)"

text \<open>
  \<^verbatim>\<open>const ts = it.blockTime || 0; if (!ts) continue;
  const dtMin = (now - ts) / 60; for (const w of windowsMinutes) ...\<close>
\<close>

definition scan_transaction :: "int \<Rightarrow> real list \<Rightarrow> transaction \<Rightarrow> results \<times> actor_sets \<Rightarrow> results \<times> actor_sets" where
  "scan_transaction now_s windowsMinutes it st =
     (let ts = (case blockTime it of None \<Rightarrow> 0 | Some b \<Rightarrow> b)
      in if ts = 0 then st
         else let dtMin = real_of_int (now_s - ts) / 60
              in fold (count_in_window dtMin it) windowsMinutes st)"

fun scan_addresses :: "upstream \<Rightarrow> real list \<Rightarrow> string list \<Rightarrow> results \<times> actor_sets \<Rightarrow> error + results \<times> actor_sets" where
  "scan_addresses u windowsMinutes [] st = Inr st"
| "scan_addresses u windowsMinutes (addr # addresses) st =
     await (heliusGET_history u addr) (\<lambda>arr.
       scan_addresses u windowsMinutes addresses
         (fold (scan_transaction (now u) windowsMinutes) arr st))"

definition activityWindows :: "upstream \<Rightarrow> string list \<Rightarrow> real list \<Rightarrow> error + results" where
  "activityWindows u addresses windowsMinutes =
     (let results0 = fold (\<lambda>w res. res(w \<mapsto> \<lparr>tx = 0, volume_usdc = 0, unique_actors = 0\<rparr>))
                       windowsMinutes Map.empty;
          actorSets0 = fold (\<lambda>w acts. acts(w \<mapsto> {})) windowsMinutes Map.empty
      in await (scan_addresses u windowsMinutes addresses (results0, actorSets0)) (\<lambda>(res, acts).
           Inr (fold (\<lambda>w res. update_stats w
                        (\<lambda>s. s\<lparr>unique_actors := (case acts w of None \<Rightarrow> 0 | Some A \<Rightarrow> card A)\<rparr>) res)
                  windowsMinutes res)))"

text \<open>Reading a result: \<^verbatim>\<open>results[w].tx\<close> and \<^verbatim>\<open>results[w].volume_usdc\<close>.\<close>

definition tx_count :: "results \<Rightarrow> real \<Rightarrow> nat" where
  "tx_count res w = (case res w of None \<Rightarrow> 0 | Some s \<Rightarrow> tx s)"

definition volume :: "results \<Rightarrow> real \<Rightarrow> real" where
  "volume res w = (case res w of None \<Rightarrow> 0 | Some s \<Rightarrow> volume_usdc s)"

section \<open>VIP wallets\<close>

text \<open>
  \<^verbatim>\<open>String.prototype.trim\<close> on ASCII text: white space is space, tab, line feed,
  vertical tab, form feed and carriage return.
\<close>

definition is_space :: "char \<Rightarrow> bool" where
  "is_space c = (c \<in> {CHR '' '', CHR 0x09, CHR 0x0A, CHR 0x0B, CHR 0x0C, CHR 0x0D})"

definition trim :: "string \<Rightarrow> string" where
  "trim s = rev (dropWhile is_space (rev (dropWhile is_space s)))"

text \<open>
  \<^verbatim>\<open>hits\<close> is a \<^verbatim>\<open>Map\<close>: its entries keep the order in which the keys were first
  set.
\<close>

type_synonym hits = "(string \<times> nat) list"

definition hits_get :: "hits \<Rightarrow> string \<Rightarrow> nat option" where
  "hits_get h k = map_of h k"

fun hits_set :: "string \<Rightarrow> nat \<Rightarrow> hits \<Rightarrow> hits" where
  "hits_set k v [] = [(k, v)]"
| "hits_set k v ((k', c) # h) = (if k' = k then (k, v) # h else (k', c) # hits_set k v h)"

text \<open>
  \<^verbatim>\<open>const a = t.fromUserAccount || ""; const b = t.toUserAccount || "";
  if (vip.has(a) || vip.has(b)) {
    const hit = vip.has(a) ? a : b; const prev = hits.get(hit) || 0; hits.set(hit, prev+1); }\<close>
\<close>

definition vip_leg :: "string set \<Rightarrow> transfer \<Rightarrow> hits \<Rightarrow> hits" where
  "vip_leg vip_set t h =
     (let a = (case fromUserAccount t of None \<Rightarrow> [] | Some x \<Rightarrow> x);
          b = (case toUserAccount t of None \<Rightarrow> [] | Some x \<Rightarrow> x)
      in if a \<in> vip_set \<or> b \<in> vip_set
         then let hit = (if a \<in> vip_set then a else b);
                  prev = (case hits_get h hit of None \<Rightarrow> 0 | Some c \<Rightarrow> c)
              in hits_set hit (prev + 1) h
         else h)"

text \<open>\<^verbatim>\<open>if ((it.blockTime||0) < since) continue;\<close>\<close>

definition vip_transaction :: "int \<Rightarrow> string set \<Rightarrow> transaction \<Rightarrow> hits \<Rightarrow> hits" where
  "vip_transaction since vip_set it h =
     (if (case blockTime it of None \<Rightarrow> 0 | Some b \<Rightarrow> b) < since then h
      else fold (vip_leg vip_set) (case tokenTransfers it of None \<Rightarrow> [] | Some ts \<Rightarrow> ts) h)"

fun vip_addresses :: "upstream \<Rightarrow> int \<Rightarrow> string set \<Rightarrow> string list \<Rightarrow> hits \<Rightarrow> error + hits" where
  "vip_addresses u since vip_set [] h = Inr h"
| "vip_addresses u since vip_set (addr # addressesToScan) h =
     await (heliusGET_history u addr) (\<lambda>arr.
       vip_addresses u since vip_set addressesToScan (fold (vip_transaction since vip_set) arr h))"

record vip_presence =
  vip_count :: nat
  vip_hits :: hits

definition vipWalletsPresence :: "upstream \<Rightarrow> string list \<Rightarrow> string list \<Rightarrow> error + vip_presence" where
  "vipWalletsPresence u vipAddresses addressesToScan =
     (let since = now u - 86400;
          vip_set = set (filter (\<lambda>s. s \<noteq> []) (map trim vipAddresses))
      in await (vip_addresses u since vip_set addressesToScan []) (\<lambda>h.
           Inr \<lparr>vip_count = length h, vip_hits = h\<rparr>))"

section \<open>Concrete scenarios\<close>

text \<open>
  Five threshold criteria met, none of the four bonus criteria met, default weights.
\<close>

definition thresholds_met :: score_inputs where
  "thresholds_met =
     \<lparr>lpProviders = 50, lpProvidersMin = 10, lpLockedPct = 90, lpLockedMinPct = 80,
      concentrationTop1Pct = 5, maxTop1Pct = 10, concentrationTop10Pct = 30, maxTop10Pct = 40,
      activity24h_traders = Some 100, minTraders24h = Some 20, vipHits = Some 0,
      revivalActive = False, tokenAgeDays = 30, maxAgeDays = None, fdvToMc = Some 2,
      weights = None\<rparr>"

text \<open>No criterion met but, possibly, the FDV to market cap one; default weights.\<close>

definition nothing_met :: "real option \<Rightarrow> score_inputs" where
  "nothing_met ratio =
     \<lparr>lpProviders = 1, lpProvidersMin = 10, lpLockedPct = 10, lpLockedMinPct = 80,
      concentrationTop1Pct = 50, maxTop1Pct = 10, concentrationTop10Pct = 90, maxTop10Pct = 40,
      activity24h_traders = None, minTraders24h = Some 20, vipHits = None,
      revivalActive = False, tokenAgeDays = 30, maxAgeDays = None, fdvToMc = ratio,
      weights = None\<rparr>"

text \<open>
  A pool of USDC (reserve X: 5000 at 6 decimals) against a token (reserve Y: 100 at 9
  decimals) whose mint has raw supply 1000000000 at 6 decimals.
\<close>

definition token_mint :: string where
  "token_mint = ''So11111111111111111111111111111111111111112''"

definition other_mint :: string where
  "other_mint = ''mSoLzYCxHdYgdzU16g5QSh3i5K3z3KZK7ytfqcJm7So''"

definition usdc_pool :: upstream where
  "usdc_pool =
     \<lparr>rpc_getTokenSupply = (\<lambda>m. if m = token_mint then Inr (1000000000, 6)
                                 else Inl (RpcError ''getTokenSupply'' ''not a mint'')),
      rpc_getTokenAccountBalance =
        (\<lambda>a. if a = ''reserveX'' then Inr (5000000000, 6)
              else if a = ''reserveY'' then Inr (100000000000, 9)
              else Inl (RpcError ''getTokenAccountBalance'' ''not a token account'')),
      rpc_getAccountInfo =
        (\<lambda>a. if a = ''reserveX'' then Inr (Some \<lparr>info_mint = Some USDC_MINT\<rparr>)
              else if a = ''reserveY'' then Inr (Some \<lparr>info_mint = Some token_mint\<rparr>)
              else Inr None),
      rpc_getProgramAccounts = (\<lambda>p m. Inr (Some [])),
      heliusGET_history = (\<lambda>a. Inr []),
      now = 1700000000\<rparr>"

text \<open>
  A pool of two tokens, neither of them USDC, both at 9 decimals: reserve X holds 8,
  reserve Y holds 2.
\<close>

definition ambiguous_pool :: upstream where
  "ambiguous_pool =
     \<lparr>rpc_getTokenSupply = (\<lambda>m. if m = token_mint then Inr (1000000000, 9)
                                 else Inl (RpcError ''getTokenSupply'' ''not a mint'')),
      rpc_getTokenAccountBalance =
        (\<lambda>a. if a = ''reserveX'' then Inr (8000000000, 9)
              else if a = ''reserveY'' then Inr (2000000000, 9)
              else Inl (RpcError ''getTokenAccountBalance'' ''not a token account'')),
      rpc_getAccountInfo =
        (\<lambda>a. if a = ''reserveX'' then Inr (Some \<lparr>info_mint = Some other_mint\<rparr>)
              else if a = ''reserveY'' then Inr (Some \<lparr>info_mint = Some token_mint\<rparr>)
              else Inr None),
      rpc_getProgramAccounts = (\<lambda>p m. Inr (Some [])),
      heliusGET_history = (\<lambda>a. Inr []),
      now = 1700000000\<rparr>"

text \<open>
  A mint with raw supply \<open>a\<close> at \<open>d\<close> decimals whose token accounts, all under the
  first token program, are \<open>rows\<close>.
\<close>

definition mint_chain :: "int \<Rightarrow> nat \<Rightarrow> row list \<Rightarrow> upstream" where
  "mint_chain a d rows =
     \<lparr>rpc_getTokenSupply = (\<lambda>m. Inr (a, d)),
      rpc_getTokenAccountBalance =
        (\<lambda>a. Inl (RpcError ''getTokenAccountBalance'' ''not a token account'')),
      rpc_getAccountInfo = (\<lambda>a. Inr None),
      rpc_getProgramAccounts = (\<lambda>p m. if p = TOKEN_PROGRAM then Inr (Some rows) else Inr None),
      heliusGET_history = (\<lambda>a. Inr []),
      now = 1700000000\<rparr>"

definition three_holders :: "row list" where
  "three_holders =
     [Some \<lparr>owner = ''carol'', uiAmount = Some 100\<rparr>,
      Some \<lparr>owner = ''alice'', uiAmount = Some 600\<rparr>,
      None,
      Some \<lparr>owner = ''dust'', uiAmount = Some 0\<rparr>,
      Some \<lparr>owner = ''bob'', uiAmount = Some 300\<rparr>]"

text \<open>
  One address with two transactions, one minute and eight minutes before the call; the
  first moves 40 USDC from alice to bob, the second 2 USDC and another token.
\<close>

definition two_transactions :: upstream where
  "two_transactions =
     \<lparr>rpc_getTokenSupply = (\<lambda>m. Inl (RpcError ''getTokenSupply'' ''not a mint'')),
      rpc_getTokenAccountBalance =
        (\<lambda>a. Inl (RpcError ''getTokenAccountBalance'' ''not a token account'')),
      rpc_getAccountInfo = (\<lambda>a. Inr None),
      rpc_getProgramAccounts = (\<lambda>p m. Inr None),
      heliusGET_history =
        (\<lambda>a. if a = ''pool''
              then Inr [\<lparr>blockTime = Some 1699999940,
                         tokenTransfers = Some [\<lparr>t_mint = Some USDC_MINT, tokenAmount = Some 40,
                                                 fromUserAccount = Some ''alice'',
                                                 toUserAccount = Some ''bob''\<rparr>]\<rparr>,
                        \<lparr>blockTime = Some 1699999520,
                         tokenTransfers = Some [\<lparr>t_mint = Some USDC_MINT, tokenAmount = Some 2,
                                                 fromUserAccount = Some ''bob'',
                                                 toUserAccount = Some ''carol''\<rparr>,
                                                \<lparr>t_mint = Some token_mint, tokenAmount = Some 7,
                                                 fromUserAccount = Some ''carol'',
                                                 toUserAccount = None\<rparr>]\<rparr>]
              else Inr []),
      now = 1700000000\<rparr>"

text \<open>
  Two roundings for the scenarios. \<open>exact\<close> rounds nothing. \<open>double_range\<close> has the
  range of the doubles and unlimited precision: beyond \<open>2 ^ 1024\<close> in magnitude it
  overflows to an infinity, below \<open>1 / 2 ^ 1075\<close> it underflows to 0.
\<close>

definition exact :: "real \<Rightarrow> number" where
  "exact x = Num x"

definition double_range :: "real \<Rightarrow> number" where
  "double_range x =
     (if 2 ^ 1024 \<le> x then PosInf
      else if x \<le> - (2 ^ 1024) then NegInf
      else if \<bar>x\<bar> < 1 / 2 ^ 1075 then Num 0
      else Num x)"

section \<open>Retry exhaustion\<close>

lemma rpc_from_all_fail:
  "i \<le> m \<Longrightarrow> (\<forall>k. i \<le> k \<and> k \<le> m \<longrightarrow> isl (rpc_attempt meth (net k))) \<Longrightarrow>
   attempts (fst (rpc_from m meth net i)) = Suc m - i \<and>
   delays (fst (rpc_from m meth net i)) = map (\<lambda>j. 250 * (j + 1)) [i..<m] \<and>
   snd (rpc_from m meth net i) = rpc_attempt meth (net m)"
proof (induction "m - i" arbitrary: i)
  case 0
  then have im: "i = m" by simp
  from 0 im obtain e where e: "rpc_attempt meth (net m) = Inl e"
    by (metis isl_def le_refl)
  show ?case unfolding im by (simp add: rpc_from.simps[of m meth net m] e)
next
  case (Suc d)
  then have lt: "i < m" by simp
  from Suc.prems lt obtain e where e: "rpc_attempt meth (net i) = Inl e"
    by (metis isl_def le_refl)
  have ih: "attempts (fst (rpc_from m meth net (i + 1))) = Suc m - (i + 1) \<and>
   delays (fst (rpc_from m meth net (i + 1))) = map (\<lambda>j. 250 * (j + 1)) [i + 1..<m] \<and>
   snd (rpc_from m meth net (i + 1)) = rpc_attempt meth (net m)"
    using Suc.hyps(1)[of "i + 1"] Suc.hyps(2) Suc.prems lt by auto
  have step: "rpc_from m meth net i =
     (Attempt # Sleep (250 * (i + 1)) # fst (rpc_from m meth net (i + 1)),
      snd (rpc_from m meth net (i + 1)))"
    using lt by (simp add: rpc_from.simps[of m meth net i] e split: prod.splits)
  show ?case using ih lt by (simp add: step upt_conv_Cons)
qed

lemma rpcCall_from_all_fail:
  "i \<le> m \<Longrightarrow> (\<forall>k. i \<le> k \<and> k \<le> m \<longrightarrow> isl (rpcCall_attempt (net k))) \<Longrightarrow>
   attempts (fst (rpcCall_from m net i)) = Suc m - i \<and>
   delays (fst (rpcCall_from m net i)) = map (\<lambda>j. min (250 * (j + 1)) 1500) [i..<m] \<and>
   snd (rpcCall_from m net i) = rpcCall_attempt (net m)"
proof (induction "m - i" arbitrary: i)
  case 0
  then have im: "i = m" by simp
  from 0 im obtain e where e: "rpcCall_attempt (net m) = Inl e"
    by (metis isl_def le_refl)
  show ?case unfolding im by (simp add: rpcCall_from.simps[of m net m] e)
next
  case (Suc d)
  then have lt: "i < m" by simp
  from Suc.prems lt obtain e where e: "rpcCall_attempt (net i) = Inl e"
    by (metis isl_def le_refl)
  have ih: "attempts (fst (rpcCall_from m net (i + 1))) = Suc m - (i + 1) \<and>
   delays (fst (rpcCall_from m net (i + 1))) = map (\<lambda>j. min (250 * (j + 1)) 1500) [i + 1..<m] \<and>
   snd (rpcCall_from m net (i + 1)) = rpcCall_attempt (net m)"
    using Suc.hyps(1)[of "i + 1"] Suc.hyps(2) Suc.prems lt by auto
  have step: "rpcCall_from m net i =
     (Attempt # Sleep (min (250 * (i + 1)) 1500) # fst (rpcCall_from m net (i + 1)),
      snd (rpcCall_from m net (i + 1)))"
    using lt by (simp add: rpcCall_from.simps[of m net i] e split: prod.splits)
  show ?case using ih lt by (simp add: step upt_conv_Cons)
qed

lemma sorted_map_upt:
  "(\<And>a b. a \<le> b \<Longrightarrow> f a \<le> f b) \<Longrightarrow> sorted (map f [i..<m :: nat])"
  by (induction m) (auto simp: sorted_append)

text \<open>
  Claim C3, as the code has it. When every attempt of a JSON-RPC call made by
  \<^verbatim>\<open>rpc\<close> or by \<^verbatim>\<open>rpcCall\<close> fails, the client dispatches exactly
  \<open>max_retries + 1\<close> requests, the sleeps between them never decrease (\<open>250 * k\<close>
  milliseconds after the \<open>k\<close>-th failure, capped at 1500 in \<^verbatim>\<open>rpcCall\<close>), and the
  call ends with the error of the last attempt, unchanged.
\<close>

theorem retry_exhaustion:
  "((\<forall>k\<le>m. isl (rpc_attempt meth (net k))) \<longrightarrow>
      attempts (fst (rpc m meth net)) = m + 1 \<and>
      delays (fst (rpc m meth net)) = map (\<lambda>j. 250 * (j + 1)) [0..<m] \<and>
      sorted (delays (fst (rpc m meth net))) \<and>
      snd (rpc m meth net) = rpc_attempt meth (net m))
   \<and>
   ((\<forall>k\<le>m'. isl (rpcCall_attempt (net' k))) \<longrightarrow>
      attempts (fst (rpcCall m' net')) = m' + 1 \<and>
      delays (fst (rpcCall m' net')) = map (\<lambda>j. min (250 * (j + 1)) 1500) [0..<m'] \<and>
      sorted (delays (fst (rpcCall m' net'))) \<and>
      snd (rpcCall m' net') = rpcCall_attempt (net' m'))"
proof (intro conjI impI)
  assume a: "\<forall>k\<le>m. isl (rpc_attempt meth (net k))"
  then have r: "attempts (fst (rpc_from m meth net 0)) = Suc m - 0 \<and>
   delays (fst (rpc_from m meth net 0)) = map (\<lambda>j. 250 * (j + 1)) [0..<m] \<and>
   snd (rpc_from m meth net 0) = rpc_attempt meth (net m)"
    by (intro rpc_from_all_fail) auto
  show "attempts (fst (rpc m meth net)) = m + 1" using r by (simp add: rpc_def)
  show d: "delays (fst (rpc m meth net)) = map (\<lambda>j. 250 * (j + 1)) [0..<m]"
    using r by (simp add: rpc_def)
  show "sorted (delays (fst (rpc m meth net)))"
    unfolding d by (rule sorted_map_upt) simp
  show "snd (rpc m meth net) = rpc_attempt meth (net m)" using r by (simp add: rpc_def)
next
  assume a: "\<forall>k\<le>m'. isl (rpcCall_attempt (net' k))"
  then have r: "attempts (fst (rpcCall_from m' net' 0)) = Suc m' - 0 \<and>
   delays (fst (rpcCall_from m' net' 0)) = map (\<lambda>j. min (250 * (j + 1)) 1500) [0..<m'] \<and>
   snd (rpcCall_from m' net' 0) = rpcCall_attempt (net' m')"
    by (intro rpcCall_from_all_fail) auto
  show "attempts (fst (rpcCall m' net')) = m' + 1" using r by (simp add: rpcCall_def)
  show d: "delays (fst (rpcCall m' net')) = map (\<lambda>j. min (250 * (j + 1)) 1500) [0..<m']"
    using r by (simp add: rpcCall_def)
  show "sorted (delays (fst (rpcCall m' net')))"
    unfolding d by (rule sorted_map_upt) simp
  show "snd (rpcCall m' net') = rpcCall_attempt (net' m')" using r by (simp add: rpcCall_def)
qed

text \<open>
  Three retries of \<^verbatim>\<open>rpc\<close> against an upstream answering 500, 501, 502, 503, and seven
  retries of \<^verbatim>\<open>rpcCall\<close> against an upstream that never answers.
\<close>

theorem retry_exhaustion_witness:
  "attempts (fst (rpc 3 ''getSlot'' (\<lambda>k. Reply (500 + k) [] (None :: unit envelope option)))) = 4 \<and>
   delays (fst (rpc 3 ''getSlot'' (\<lambda>k. Reply (500 + k) [] (None :: unit envelope option))))
     = [250, 500, 750] \<and>
   snd (rpc 3 ''getSlot'' (\<lambda>k. Reply (500 + k) [] (None :: unit envelope option)))
     = Inl (RpcHttp ''getSlot'' 503) \<and>
   attempts (fst (rpcCall 7 (\<lambda>k. NoReply (Rejected ''aborted'') :: unit reply))) = 8 \<and>
   delays (fst (rpcCall 7 (\<lambda>k. NoReply (Rejected ''aborted'') :: unit reply)))
     = [250, 500, 750, 1000, 1250, 1500, 1500] \<and>
   snd (rpcCall 7 (\<lambda>k. NoReply (Rejected ''aborted'') :: unit reply)) = Inl (Rejected ''aborted'')"
  using retry_exhaustion [of 3 "''getSlot''" "\<lambda>k. Reply (500 + k) [] (None :: unit envelope option)"
      7 "\<lambda>k. NoReply (Rejected ''aborted'') :: unit reply"]
  by (simp add: http_ok_def upt_rec)

text \<open>
  A call that does not go through these two loops is not retried: with the default of
  three retries, \<^verbatim>\<open>heliusGET\<close> against an upstream that answers 500 dispatches one
  request, not four, and ends with the error of that request.
\<close>

theorem rest_helper_dispatches_once:
  "attempts (fst (heliusGET (\<lambda>k. Reply 500 [] (None :: unit envelope option)))) = 1 \<and>
   snd (heliusGET (\<lambda>k. Reply 500 [] (None :: unit envelope option))) = Inl (HeliusHttp 500) \<and>
   attempts (fst (heliusGET (\<lambda>k. Reply 500 [] (None :: unit envelope option))))
     \<noteq> default_RPC_MAX_RETRIES + 1"
  by (simp add: heliusGET_def http_ok_def default_RPC_MAX_RETRIES_def)

section \<open>Scoring\<close>

lemma fst_add_or_push: "fst (add_or_push c p r st) = fst st + (if c then p else 0)"
  by (simp add: add_or_push_def)

lemma snd_add_or_push: "snd (add_or_push c p r st) = snd st @ (if c then [] else [r])"
  by (simp add: add_or_push_def)

lemma fst_add_if: "fst (add_if c p st) = fst st + (if c then p else 0)"
  by (simp add: add_if_def)

lemma snd_add_if: "snd (add_if c p st) = snd st"
  by (simp add: add_if_def)

lemmas score_lines = fst_add_or_push snd_add_or_push fst_add_if snd_add_if

text \<open>
  Claim C2, as the code has it. Each of the nine criteria adds its base points times its
  weight when it is met and nothing when it is not. An unmet criterion appends its fixed
  string to the reasons only when it is one of the five threshold criteria (LP
  providers, LP locked, top-1 and top-10 concentration, 24h traders), in that order; the
  VIP-hit, revival, token-age and FDV to market cap criteria never append a reason.
\<close>

theorem scoreToken_score_and_reasons:
  "score (scoreToken i) =
     (if lpProviders i \<ge> lpProvidersMin i then 10 * w_lpCount (weights_of i) else 0)
   + (if lpLockedPct i \<ge> lpLockedMinPct i then 8 * w_lpLocked (weights_of i) else 0)
   + (if concentrationTop1Pct i \<le> maxTop1Pct i then 6 * w_holdersDist (weights_of i) else 0)
   + (if concentrationTop10Pct i \<le> maxTop10Pct i then 6 * w_holdersDist (weights_of i) else 0)
   + (if js_or (activity24h_traders i) 0 \<ge> js_or (minTraders24h i) 0
      then 5 * w_activity (weights_of i) else 0)
   + (if js_or (vipHits i) 0 > 0 then 4 * w_vip (weights_of i) else 0)
   + (if revivalActive i then 3 * w_revival (weights_of i) else 0)
   + (if tokenAgeDays i \<le> js_or (maxAgeDays i) 0.25 then 2 * w_age (weights_of i) else 0)
   + (if js_or (fdvToMc i) 1 \<ge> 0.9 \<and> js_or (fdvToMc i) 1 \<le> 1.1
      then 4 * w_fdvToMc (weights_of i) else 0)
   \<and>
   reasons (scoreToken i) =
     (if lpProviders i \<ge> lpProvidersMin i then [] else [''LP providers below threshold''])
   @ (if lpLockedPct i \<ge> lpLockedMinPct i then [] else [''LP locked pct low''])
   @ (if concentrationTop1Pct i \<le> maxTop1Pct i then [] else [''Top1 concentration high''])
   @ (if concentrationTop10Pct i \<le> maxTop10Pct i then [] else [''Top10 concentration high''])
   @ (if js_or (activity24h_traders i) 0 \<ge> js_or (minTraders24h i) 0 then []
      else [''Low traders 24h''])"
  unfolding scoreToken_def Let_def
  by (simp only: score_lines score_result.simps fst_conv snd_conv append_Nil add_0 append_assoc
      simp_thms)

theorem scoreToken_score_and_reasons_witness:
  "score (scoreToken (nothing_met (Some 1))) = 4 \<and>
   reasons (scoreToken (nothing_met (Some 1))) =
     [''LP providers below threshold'', ''LP locked pct low'', ''Top1 concentration high'',
      ''Top10 concentration high'', ''Low traders 24h'']"
  using scoreToken_score_and_reasons [of "nothing_met (Some 1)"]
  by (simp add: nothing_met_def weights_of_def default_weights_def js_or_def)

text \<open>
  With the five threshold criteria met and the VIP-hit, revival, token-age and FDV to
  market cap criteria all unmet, the reasons are empty.
\<close>

theorem unmet_bonus_criteria_give_no_reason:
  "\<not> js_or (vipHits thresholds_met) 0 > 0 \<and>
   \<not> revivalActive thresholds_met \<and>
   \<not> tokenAgeDays thresholds_met \<le> js_or (maxAgeDays thresholds_met) 0.25 \<and>
   \<not> (js_or (fdvToMc thresholds_met) 1 \<ge> 0.9 \<and> js_or (fdvToMc thresholds_met) 1 \<le> 1.1) \<and>
   reasons (scoreToken thresholds_met) = [] \<and>
   score (scoreToken thresholds_met) = 65"
  by (simp add: thresholds_met_def scoreToken_def weights_of_def default_weights_def
      add_or_push_def add_if_def js_or_def)

text \<open>
  Claim C5, as the code has it. The FDV to market cap bonus, four times its weight, is
  awarded when the ratio is absent, which then counts as 1; for a ratio that is supplied
  and not zero it is awarded if and only if the ratio lies in the closed band from 0.9 to
  1.1. The bonus is the part of the score that the weight of the criterion carries.
\<close>

theorem fdvToMc_bonus:
  assumes "fdvToMc i \<noteq> Some 0"
  shows "score (scoreToken i) =
           score (scoreToken (i\<lparr>weights := Some ((weights_of i)\<lparr>w_fdvToMc := 0\<rparr>)\<rparr>))
           + (if (case fdvToMc i of None \<Rightarrow> True | Some x \<Rightarrow> 0.9 \<le> x \<and> x \<le> 1.1)
              then 4 * w_fdvToMc (weights_of i) else 0)"
proof -
  have band: "(js_or (fdvToMc i) 1 \<ge> 0.9 \<and> js_or (fdvToMc i) 1 \<le> 1.1)
       = (case fdvToMc i of None \<Rightarrow> True | Some x \<Rightarrow> 0.9 \<le> x \<and> x \<le> 1.1)"
    using assms by (auto simp: js_or_def split: option.splits)
  show ?thesis
    unfolding scoreToken_def Let_def band
    by (simp add: score_lines weights_of_def)
qed

theorem fdvToMc_bonus_witness:
  "fdvToMc (nothing_met (Some 1.1)) \<noteq> Some 0 \<and>
   score (scoreToken (nothing_met (Some 1.1))) =
     score (scoreToken ((nothing_met (Some 1.1))
        \<lparr>weights := Some ((weights_of (nothing_met (Some 1.1)))\<lparr>w_fdvToMc := 0\<rparr>)\<rparr>)) + 4"
proof -
  have h: "fdvToMc (nothing_met (Some 1.1)) \<noteq> Some 0" by (simp add: nothing_met_def)
  show ?thesis
    using h fdvToMc_bonus [OF h]
    by (simp add: nothing_met_def weights_of_def default_weights_def)
qed

text \<open>
  An absent ratio earns the bonus: with no other criterion met and default weights the
  score is 4, where a ratio of 2 scores 0.
\<close>

theorem absent_ratio_earns_bonus:
  "score (scoreToken (nothing_met None)) = 4 \<and> score (scoreToken (nothing_met (Some 2))) = 0"
  by (simp add: nothing_met_def scoreToken_def weights_of_def default_weights_def
      add_or_push_def add_if_def js_or_def)

section \<open>Rounding\<close>

lemma rounding_mono: "rounding rnd \<Longrightarrow> x \<le> y \<Longrightarrow> js_le (rnd x) (rnd y)"
  unfolding rounding_def by blast

lemma rounding_fixed: "rounding rnd \<Longrightarrow> rnd x = Num y \<Longrightarrow> rnd y = Num y"
  unfolding rounding_def by blast

lemma rounding_consts:
  "rounding rnd \<Longrightarrow> rnd 0 = Num 0 \<and> rnd 1 = Num 1 \<and> rnd 100 = Num 100 \<and> rnd x \<noteq> NaN"
  unfolding rounding_def by blast

lemma rounding_exact: "rounding exact"
  by (simp add: rounding_def exact_def)

lemma double_range_mono: "x \<le> y \<Longrightarrow> js_le (double_range x) (double_range y)"
  by (auto simp: double_range_def abs_if split: if_splits)

lemma rounding_double_range: "rounding double_range"
proof -
  have big: "(100 :: real) < 2 ^ 1024"
  proof -
    have "(100 :: real) < 2 ^ 7" by simp
    also have "\<dots> \<le> 2 ^ 1024" by (rule power_increasing) simp_all
    finally show ?thesis .
  qed
  have small: "(1 :: real) / 2 ^ 1075 \<le> 1"
    by (simp add: divide_le_eq_1)
  have fixed: "double_range y = Num y" if "double_range x = Num y" for x y
    using that by (auto simp: double_range_def split: if_splits)
  have "double_range 0 = Num 0" by (simp add: double_range_def)
  moreover have "double_range 1 = Num 1"
    using big small by (simp add: double_range_def)
  moreover have "double_range 100 = Num 100"
    using big small by (simp add: double_range_def)
  moreover have "\<forall>x. double_range x \<noteq> NaN" by (simp add: double_range_def)
  ultimately show ?thesis
    unfolding rounding_def using double_range_mono fixed by blast
qed

section \<open>FDV to market cap\<close>

text \<open>
  Claim C10. For every finite price, total supply and optional circulating supply, the
  helper returns \<^verbatim>\<open>null\<close> as the ratio when the market cap it computed is 0, as for a
  price of 0 or a supply of 0, so that no division by zero takes place; otherwise it
  returns the quotient of the FDV and the market cap it computed, as JavaScript divides
  them. The two products are rounded: one that overflows is an infinity, and the
  quotient is then an infinity or \<^verbatim>\<open>NaN\<close>; one that underflows is 0.
\<close>

theorem fdvToMcap_null_iff:
  assumes "rounding rnd"
  shows "fdv_to_mcap (fdvToMcap rnd (Num p) (Num t) (map_option Num c)) =
     (if marketcap_usd (fdvToMcap rnd (Num p) (Num t) (map_option Num c)) = Num 0 then None
      else Some (fl_div rnd (mcap_fdv_usd (fdvToMcap rnd (Num p) (Num t) (map_option Num c)))
                            (marketcap_usd (fdvToMcap rnd (Num p) (Num t) (map_option Num c)))))
   \<and> mcap_fdv_usd (fdvToMcap rnd (Num p) (Num t) (map_option Num c)) = rnd (p * t)
   \<and> marketcap_usd (fdvToMcap rnd (Num p) (Num t) (map_option Num c)) =
         rnd (p * (case c of None \<Rightarrow> t | Some s \<Rightarrow> s))
   \<and> (p = 0 \<or> (case c of None \<Rightarrow> t | Some s \<Rightarrow> s) = 0 \<longrightarrow>
         fdv_to_mcap (fdvToMcap rnd (Num p) (Num t) (map_option Num c)) = None)"
proof -
  have nn: "rnd x \<noteq> NaN" for x using rounding_consts [OF assms] by simp
  have z: "rnd 0 = Num 0" using rounding_consts [OF assms] by simp
  show ?thesis
    by (cases c) (auto simp: fdvToMcap_def Let_def js_truthy_def nn z)
qed

text \<open>
  A price of 0, a supply of 0 and a ratio of 2 without rounding; then, within the range
  of the doubles, \<open>2 ^ 1000\<close> times \<open>2 ^ 100\<close> overflows, which gives \<^verbatim>\<open>NaN\<close>, or an
  infinity for a circulating supply of 1, and the square of \<open>1 / 2 ^ 600\<close> underflows to
  a market cap of 0, which gives \<^verbatim>\<open>null\<close>.
\<close>

theorem fdvToMcap_null_iff_witness:
  "fdv_to_mcap (fdvToMcap exact (Num 0) (Num 1000) None) = None \<and>
   fdv_to_mcap (fdvToMcap exact (Num 2) (Num 0) None) = None \<and>
   fdv_to_mcap (fdvToMcap exact (Num 2) (Num 1000) (Some (Num 500))) = Some (Num 2) \<and>
   fdv_to_mcap (fdvToMcap double_range (Num (2 ^ 1000)) (Num (2 ^ 100)) None) = Some NaN \<and>
   fdv_to_mcap (fdvToMcap double_range (Num (2 ^ 1000)) (Num (2 ^ 100)) (Some (Num 1)))
     = Some PosInf \<and>
   fdv_to_mcap (fdvToMcap double_range (Num (1 / 2 ^ 600)) (Num (1 / 2 ^ 600)) None) = None"
  using fdvToMcap_null_iff [OF rounding_exact, of 0 1000 None]
    fdvToMcap_null_iff [OF rounding_exact, of 2 0 None]
    fdvToMcap_null_iff [OF rounding_exact, of 2 1000 "Some 500"]
    fdvToMcap_null_iff [OF rounding_double_range, of "2 ^ 1000" "2 ^ 100" None]
    fdvToMcap_null_iff [OF rounding_double_range, of "2 ^ 1000" "2 ^ 100" "Some 1"]
    fdvToMcap_null_iff [OF rounding_double_range, of "1 / 2 ^ 600" "1 / 2 ^ 600" None]
  by (simp add: exact_def double_range_def signed_inf_def)

section \<open>Price and FDV from pool reserves\<close>

lemma await_Inr [simp]: "await (Inr v) k = k v"
  by (simp add: await_def)

lemma await_Inl [simp]: "await (Inl e) k = Inl e"
  by (simp add: await_def)

lemma getTokenAccountBalance_ui:
  "getTokenAccountBalance u a = Inr b \<Longrightarrow> ui b = uiFromRaw (amount b) (decimals b)"
  by (auto simp: getTokenAccountBalance_def await_def split: sum.splits prod.splits)

lemma getMintSupply_ui:
  "getMintSupply u m = Inr b \<Longrightarrow> ui b = uiFromRaw (amount b) (decimals b)"
  by (auto simp: getMintSupply_def await_def split: sum.splits prod.splits)

lemma poolReserves_sides:
  assumes "poolReserves u rx ry = Inr r"
  shows "\<exists>ax ay. getTokenAccountBalance u rx = Inr ax \<and> getTokenAccountBalance u ry = Inr ay \<and>
      ((usdc r = ax \<and> tok r = ay) \<or> (usdc r = ay \<and> tok r = ax))"
  using assms
  by (auto simp: poolReserves_def await_def Let_def split: sum.splits if_splits)

lemmas chain_defs = getTokenAccountBalance_def getAccountInfoParsed_def getMintSupply_def
  getProgramAccountsByMint_def assertPubkey_def uiFromRaw_def

text \<open>
  Claim C6. When the reserves are classified and both sides hold a positive balance, and
  the supply of the token mint can be read, \<^verbatim>\<open>priceAndFDVFromReserves\<close> returns the
  price \<open>quote_ui / base_ui\<close> and the FDV \<open>price * total_supply_ui\<close>, both finite, each ui
  value being the raw amount divided by \<open>10 ^ decimals\<close>.
\<close>

theorem price_and_fdv:
  assumes "poolReserves u reserveX reserveY = Inr r"
    and "0 < ui (usdc r)" and "0 < ui (tok r)"
    and "getMintSupply u tokenMint = Inr msup"
  shows "priceAndFDVFromReserves u tokenMint reserveX reserveY =
           Inr \<lparr>price_usd = Num (ui (usdc r) / ui (tok r)),
                fdv_usd = Num (ui (usdc r) / ui (tok r) * ui msup),
                total_supply = ui msup, pool_usdc = ui (usdc r), pool_token = ui (tok r)\<rparr>
    \<and> ui (usdc r) = real_of_int (amount (usdc r)) / 10 ^ decimals (usdc r)
    \<and> ui (tok r) = real_of_int (amount (tok r)) / 10 ^ decimals (tok r)
    \<and> ui msup = real_of_int (amount msup) / 10 ^ decimals msup"
proof (intro conjI)
  show "priceAndFDVFromReserves u tokenMint reserveX reserveY =
           Inr \<lparr>price_usd = Num (ui (usdc r) / ui (tok r)),
                fdv_usd = Num (ui (usdc r) / ui (tok r) * ui msup),
                total_supply = ui msup, pool_usdc = ui (usdc r), pool_token = ui (tok r)\<rparr>"
    using assms by (simp add: priceAndFDVFromReserves_def js_div_def Let_def)
  from poolReserves_sides[OF assms(1)] getTokenAccountBalance_ui
  show "ui (usdc r) = real_of_int (amount (usdc r)) / 10 ^ decimals (usdc r)"
    and "ui (tok r) = real_of_int (amount (tok r)) / 10 ^ decimals (tok r)"
    unfolding uiFromRaw_def by metis+
  show "ui msup = real_of_int (amount msup) / 10 ^ decimals msup"
    using getMintSupply_ui[OF assms(4)] by (simp add: uiFromRaw_def)
qed

text \<open>
  Raw supply 1000000000 at 6 decimals is a ui supply of 1000; with a quote reserve of
  5000 and a base reserve of 100 the price is 50 and the FDV 50000.
\<close>

theorem price_and_fdv_witness:
  "priceAndFDVFromReserves usdc_pool token_mint ''reserveX'' ''reserveY'' =
     Inr \<lparr>price_usd = Num 50, fdv_usd = Num 50000, total_supply = 1000,
          pool_usdc = 5000, pool_token = 100\<rparr>"
proof -
  have p: "poolReserves usdc_pool ''reserveX'' ''reserveY'' =
      Inr \<lparr>usdc = \<lparr>amount = 5000000000, decimals = 6, ui = 5000\<rparr>,
           tok = \<lparr>amount = 100000000000, decimals = 9, ui = 100\<rparr>,
           tokMint = Some token_mint, usdcMint = Some USDC_MINT\<rparr>"
    by (simp add: poolReserves_def usdc_pool_def chain_defs Let_def truthy_def
        USDC_MINT_def token_mint_def)
  have s: "getMintSupply usdc_pool token_mint = Inr \<lparr>amount = 1000000000, decimals = 6, ui = 1000\<rparr>"
    by (simp add: usdc_pool_def chain_defs token_mint_def)
  show ?thesis
    using price_and_fdv [OF p _ _ s] by simp
qed

text \<open>
  Claim C1, as the code has it. When neither reserve's mint is the USDC mint and both
  reserves have the same number of decimals, the classification does not fail: reserve X
  is taken as the quote side and reserve Y as the base token, and
  \<^verbatim>\<open>priceAndFDVFromReserves\<close> goes on with that choice, failing only for a balance
  that is not positive or a supply that cannot be read.
\<close>

theorem ambiguous_reserves_take_x_as_quote:
  assumes "getTokenAccountBalance u reserveX = Inr ax"
    and "getTokenAccountBalance u reserveY = Inr ay"
    and "getAccountInfoParsed u reserveX = Inr ix"
    and "getAccountInfoParsed u reserveY = Inr iy"
    and "\<forall>i. ix = Some i \<longrightarrow> info_mint i \<noteq> Some USDC_MINT"
    and "\<forall>i. iy = Some i \<longrightarrow> info_mint i \<noteq> Some USDC_MINT"
    and "decimals ax = decimals ay"
  shows "poolReserves u reserveX reserveY =
           Inr \<lparr>usdc = ax, tok = ay,
                tokMint = (case iy of None \<Rightarrow> None | Some i \<Rightarrow> info_mint i),
                usdcMint = (case ix of None \<Rightarrow> None | Some i \<Rightarrow> info_mint i)\<rparr>
    \<and> priceAndFDVFromReserves u tokenMint reserveX reserveY =
          (if ui ay \<le> 0 \<or> ui ax \<le> 0 then Inl PoolReservesZero
           else await (getMintSupply u tokenMint) (\<lambda>s.
                  Inr \<lparr>price_usd = Num (ui ax / ui ay), fdv_usd = Num (ui ax / ui ay * ui s),
                       total_supply = ui s, pool_usdc = ui ax, pool_token = ui ay\<rparr>))"
proof -
  have p: "poolReserves u reserveX reserveY =
           Inr \<lparr>usdc = ax, tok = ay,
                tokMint = (case iy of None \<Rightarrow> None | Some i \<Rightarrow> info_mint i),
                usdcMint = (case ix of None \<Rightarrow> None | Some i \<Rightarrow> info_mint i)\<rparr>"
    using assms by (auto simp: poolReserves_def Let_def split: option.splits)
  show ?thesis
    unfolding p priceAndFDVFromReserves_def
    by (auto simp: Let_def js_div_def await_def split: sum.splits)
qed

theorem ambiguous_reserves_take_x_as_quote_witness:
  "poolReserves ambiguous_pool ''reserveX'' ''reserveY'' =
     Inr \<lparr>usdc = \<lparr>amount = 8000000000, decimals = 9, ui = 8\<rparr>,
          tok = \<lparr>amount = 2000000000, decimals = 9, ui = 2\<rparr>,
          tokMint = Some token_mint, usdcMint = Some other_mint\<rparr>"
proof -
  have ax: "getTokenAccountBalance ambiguous_pool ''reserveX'' =
      Inr \<lparr>amount = 8000000000, decimals = 9, ui = 8\<rparr>"
    by (simp add: ambiguous_pool_def chain_defs)
  have ay: "getTokenAccountBalance ambiguous_pool ''reserveY'' =
      Inr \<lparr>amount = 2000000000, decimals = 9, ui = 2\<rparr>"
    by (simp add: ambiguous_pool_def chain_defs)
  have ix: "getAccountInfoParsed ambiguous_pool ''reserveX'' = Inr (Some \<lparr>info_mint = Some other_mint\<rparr>)"
    by (simp add: ambiguous_pool_def chain_defs)
  have iy: "getAccountInfoParsed ambiguous_pool ''reserveY'' = Inr (Some \<lparr>info_mint = Some token_mint\<rparr>)"
    by (simp add: ambiguous_pool_def chain_defs)
  show ?thesis
    using ambiguous_reserves_take_x_as_quote [OF ax ay ix iy, of token_mint]
    by (simp add: USDC_MINT_def token_mint_def other_mint_def)
qed

text \<open>
  Two reserves of mints other than USDC, both at 9 decimals: the call returns a price,
  with reserve X as the quote side.
\<close>

theorem ambiguous_reserves_no_error:
  "other_mint \<noteq> USDC_MINT \<and> token_mint \<noteq> USDC_MINT \<and>
   poolReserves ambiguous_pool ''reserveX'' ''reserveY'' =
     Inr \<lparr>usdc = \<lparr>amount = 8000000000, decimals = 9, ui = 8\<rparr>,
          tok = \<lparr>amount = 2000000000, decimals = 9, ui = 2\<rparr>,
          tokMint = Some token_mint, usdcMint = Some other_mint\<rparr> \<and>
   priceAndFDVFromReserves ambiguous_pool token_mint ''reserveX'' ''reserveY'' =
     Inr \<lparr>price_usd = Num 4, fdv_usd = Num 4, total_supply = 1, pool_usdc = 8, pool_token = 2\<rparr>"
  by (simp add: priceAndFDVFromReserves_def poolReserves_def ambiguous_pool_def chain_defs Let_def
      truthy_def USDC_MINT_def token_mint_def other_mint_def js_div_def)

section \<open>Locked liquidity\<close>

lemmas scenario_defs = mint_chain_def three_holders_def token_mint_def other_mint_def
  USDC_MINT_def TOKEN_PROGRAM_def TOKEN_2022_PROGRAM_def

lemma fold_locked:
  "fold (\<lambda>row locked. case row of
            None \<Rightarrow> locked
          | Some info \<Rightarrow> if owner info \<in> L then locked + js_or (uiAmount info) 0 else locked)
     rows acc
   = acc + (\<Sum>info \<leftarrow> [i. Some i \<leftarrow> rows, owner i \<in> L]. js_or (uiAmount info) 0)"
  by (induction rows arbitrary: acc) (auto split: option.splits)

lemma uiFromRaw_eq_0 [simp]: "uiFromRaw a d = 0 \<longleftrightarrow> a = 0"
  by (simp add: uiFromRaw_def)

lemma uiFromRaw_pos [simp]: "0 < uiFromRaw a d \<longleftrightarrow> 0 < a"
  by (simp add: uiFromRaw_def zero_less_divide_iff)

text \<open>
  Claim C7. For an LP mint that passes the pubkey check and whose accounts and supply
  the upstream returns, \<^verbatim>\<open>lpLockedPercent\<close> returns a result, never an error. Its
  locked percentage is the finite number 0 when the total supply is 0, never
  \<^verbatim>\<open>NaN\<close>; otherwise it is the sum of the ui balances held by the locker owners,
  divided by the ui supply, times 100.
\<close>

theorem lp_locked_percent:
  assumes "32 \<le> length lpMint"
    and "rpc_getProgramAccounts u TOKEN_PROGRAM lpMint = Inr v1"
    and "rpc_getProgramAccounts u TOKEN_2022_PROGRAM lpMint = Inr v2"
    and "rpc_getTokenSupply u lpMint = Inr (a, d)"
    and "rows = (case v1 of None \<Rightarrow> [] | Some r \<Rightarrow> r) @ (case v2 of None \<Rightarrow> [] | Some r \<Rightarrow> r)"
    and "locked = (\<Sum>info \<leftarrow> [i. Some i \<leftarrow> rows, owner i \<in> set lockerOwners]. js_or (uiAmount info) 0)"
  shows "lpLockedPercent u lpMint lockerOwners =
           Inr \<lparr>lp_total_supply = uiFromRaw a d, locked_ui = locked,
                locked_pct = (if a = 0 then Num 0 else Num (locked / uiFromRaw a d * 100))\<rparr>"
  using assms(1-4) unfolding assms(5,6)
  by (simp add: lpLockedPercent_def getProgramAccountsByMint_def getMintSupply_def
      assertPubkey_def Let_def fold_locked js_div_def)

text \<open>
  An LP mint with no supply and no holder, and one with supply 1000 of which a locker
  holds 300.
\<close>

theorem lp_locked_percent_witness:
  "lpLockedPercent (mint_chain 0 9 []) token_mint [''bob'', ''burn''] =
     Inr \<lparr>lp_total_supply = 0, locked_ui = 0, locked_pct = Num 0\<rparr> \<and>
   lpLockedPercent (mint_chain 1000 0 three_holders) token_mint [''bob'', ''burn''] =
     Inr \<lparr>lp_total_supply = 1000, locked_ui = 300, locked_pct = Num 30\<rparr>"
proof -
  have len: "32 \<le> length token_mint" by (simp add: token_mint_def)
  have z1: "rpc_getProgramAccounts (mint_chain 0 9 []) TOKEN_PROGRAM token_mint = Inr (Some [])"
    and z2: "rpc_getProgramAccounts (mint_chain 0 9 []) TOKEN_2022_PROGRAM token_mint = Inr None"
    and z3: "rpc_getTokenSupply (mint_chain 0 9 []) token_mint = Inr (0, 9)"
    by (simp_all add: scenario_defs)
  have p1: "rpc_getProgramAccounts (mint_chain 1000 0 three_holders) TOKEN_PROGRAM token_mint
              = Inr (Some three_holders)"
    and p2: "rpc_getProgramAccounts (mint_chain 1000 0 three_holders) TOKEN_2022_PROGRAM token_mint
              = Inr None"
    and p3: "rpc_getTokenSupply (mint_chain 1000 0 three_holders) token_mint = Inr (1000, 0)"
    by (simp_all add: scenario_defs)
  show ?thesis
    using lp_locked_percent [OF len z1 z2 z3 refl refl, of "[''bob'', ''burn'']"]
      lp_locked_percent [OF len p1 p2 p3 refl refl, of "[''bob'', ''burn'']"]
    by (simp add: three_holders_def js_or_def uiFromRaw_def)
qed

section \<open>Top holders\<close>

lemma fold_items:
  "fold (\<lambda>row items. case row of
            None \<Rightarrow> items
          | Some info \<Rightarrow>
              let x = js_or (uiAmount info) 0
              in if x > 0 then items @ [(owner info, x)] else items)
     rows acc
   = acc @ [(owner i, js_or (uiAmount i) 0). Some i \<leftarrow> rows, 0 < js_or (uiAmount i) 0]"
  by (induction rows arbitrary: acc) (auto simp: Let_def split: option.splits)

text \<open>What a result of \<^verbatim>\<open>topHolders\<close> is made of.\<close>

lemma topHolders_shape:
  assumes "topHolders rnd u mint limit = Inr h"
  shows "\<exists>T. (\<forall>x \<in> set T. 0 < snd x) \<and>
     top_holders h =
       map (\<lambda>(i, x). \<lparr>rank = i + 1, holder_owner = fst x, holder_amount = snd x,
              pct_of_supply =
                (if supply_ui h \<noteq> 0
                 then fl_mul rnd (fl_div rnd (Num (snd x)) (Num (supply_ui h))) (Num 100)
                 else Num 0)\<rparr>) (enumerate 0 T) \<and>
     concentration_top1_pct h =
       js_or_number (case top_holders h of [] \<Rightarrow> None | e # _ \<Rightarrow> Some (pct_of_supply e)) (Num 0) \<and>
     concentration_top10_pct h =
       foldl (\<lambda>s x. fl_add rnd s (pct_of_supply x)) (Num 0) (take 10 (top_holders h))"
proof -
  from assms obtain v1 v2 msup where
    v1: "getProgramAccountsByMint u mint TOKEN_PROGRAM = Inr v1"
    and v2: "getProgramAccountsByMint u mint TOKEN_2022_PROGRAM = Inr v2"
    and ms: "getMintSupply u mint = Inr msup"
    by (auto simp: topHolders_def await_def split: sum.splits)
  define items where
    "items = [(owner i, js_or (uiAmount i) 0). Some i \<leftarrow> v1 @ v2, 0 < js_or (uiAmount i) 0]"
  define T where "T = take limit (sort_key (\<lambda>x. - snd x) items)"
  have pos: "\<forall>x \<in> set T. 0 < snd x"
  proof
    fix x assume "x \<in> set T"
    then have "x \<in> set items"
      unfolding T_def using set_take_subset [of limit "sort_key (\<lambda>x. - snd x) items"] by auto
    then show "0 < snd x" by (auto simp: items_def)
  qed
  have h: "h = \<lparr>supply_ui = ui msup, total_accounts = length items,
      top_holders = map (\<lambda>(i, x). \<lparr>rank = i + 1, holder_owner = fst x, holder_amount = snd x,
              pct_of_supply =
                (if ui msup \<noteq> 0
                 then fl_mul rnd (fl_div rnd (Num (snd x)) (Num (ui msup))) (Num 100)
                 else Num 0)\<rparr>) (enumerate 0 T),
      concentration_top1_pct =
        js_or_number (case map (\<lambda>(i, x). \<lparr>rank = i + 1, holder_owner = fst x, holder_amount = snd x,
              pct_of_supply =
                (if ui msup \<noteq> 0
                 then fl_mul rnd (fl_div rnd (Num (snd x)) (Num (ui msup))) (Num 100)
                 else Num 0)\<rparr>) (enumerate 0 T) of [] \<Rightarrow> None | e # _ \<Rightarrow> Some (pct_of_supply e)) (Num 0),
      concentration_top10_pct =
        foldl (\<lambda>s x. fl_add rnd s (pct_of_supply x)) (Num 0)
          (take 10 (map (\<lambda>(i, x). \<lparr>rank = i + 1, holder_owner = fst x, holder_amount = snd x,
              pct_of_supply =
                (if ui msup \<noteq> 0
                 then fl_mul rnd (fl_div rnd (Num (snd x)) (Num (ui msup))) (Num 100)
                 else Num 0)\<rparr>) (enumerate 0 T)))\<rparr>"
    using assms unfolding topHolders_def v1 v2 ms T_def items_def
    by (simp add: await_def Let_def fold_items)
  have sh: "supply_ui h = ui msup" by (subst h) simp
  have th: "top_holders h =
       map (\<lambda>(i, x). \<lparr>rank = i + 1, holder_owner = fst x, holder_amount = snd x,
              pct_of_supply =
                (if ui msup \<noteq> 0
                 then fl_mul rnd (fl_div rnd (Num (snd x)) (Num (ui msup))) (Num 100)
                 else Num 0)\<rparr>) (enumerate 0 T)"
    by (subst h) simp
  have t1: "concentration_top1_pct h =
       js_or_number (case top_holders h of [] \<Rightarrow> None | e # _ \<Rightarrow> Some (pct_of_supply e)) (Num 0)"
    unfolding th by (subst h) simp
  have t10: "concentration_top10_pct h =
       foldl (\<lambda>s x. fl_add rnd s (pct_of_supply x)) (Num 0) (take 10 (top_holders h))"
    unfolding th by (subst h) simp
  show ?thesis
    unfolding sh using pos th t1 t10 by blast
qed

text \<open>Rounded values that are not negative: a double that is at least 0, or the positive infinity.\<close>

lemma rounding_nonneg:
  assumes "rounding rnd" and "0 \<le> x"
  shows "rnd x = PosInf \<or> (\<exists>y. rnd x = Num y \<and> 0 \<le> y \<and> rnd y = Num y)"
proof -
  have "js_le (rnd 0) (rnd x)" using assms by (rule rounding_mono)
  then have "js_le (Num 0) (rnd x)" using rounding_consts [OF assms(1)] by simp
  moreover have "\<And>y. rnd x = Num y \<Longrightarrow> rnd y = Num y"
    using assms(1) by (rule rounding_fixed)
  ultimately show ?thesis by (cases "rnd x") auto
qed

lemma rounding_le:
  "rounding rnd \<Longrightarrow> x \<le> b \<Longrightarrow> rnd b = Num b \<Longrightarrow> js_le (rnd x) (Num b)"
  using rounding_mono [of rnd x b] by simp

lemma pct_nonneg:
  assumes "rounding rnd" and "0 < S" and "0 < x"
  shows "fl_mul rnd (fl_div rnd (Num x) (Num S)) (Num 100) = PosInf \<or>
         (\<exists>y. fl_mul rnd (fl_div rnd (Num x) (Num S)) (Num 100) = Num y \<and> 0 \<le> y \<and> rnd y = Num y)"
proof -
  have S: "S \<noteq> 0" using assms(2) by simp
  have q: "fl_div rnd (Num x) (Num S) = rnd (x / S)" using S by simp
  from rounding_nonneg [OF assms(1), of "x / S"] assms(2,3)
  consider "rnd (x / S) = PosInf" | a where "rnd (x / S) = Num a" "0 \<le> a"
    by auto
  then show ?thesis
  proof cases
    case 1
    then show ?thesis using S by (simp add: signed_inf_def)
  next
    case 2
    then show ?thesis
      using rounding_nonneg [OF assms(1), of "a * 100"] S by simp
  qed
qed

lemma pct_le_100:
  assumes "rounding rnd" and "0 < S" and "0 < x" and "x \<le> S"
  shows "js_le (fl_mul rnd (fl_div rnd (Num x) (Num S)) (Num 100)) (Num 100)"
proof -
  have S: "S \<noteq> 0" using assms(2) by simp
  have q: "fl_div rnd (Num x) (Num S) = rnd (x / S)" using S by simp
  have one: "rnd 1 = Num 1" and hundred: "rnd 100 = Num 100"
    using rounding_consts [OF assms(1)] by simp_all
  have "x / S \<le> 1" using assms(2,4) by simp
  then have le1: "js_le (rnd (x / S)) (Num 1)" by (rule rounding_le [OF assms(1) _ one])
  from rounding_nonneg [OF assms(1), of "x / S"] assms(2,3) le1
  obtain a where a: "rnd (x / S) = Num a" "0 \<le> a" "a \<le> 1" by auto
  have "a * 100 \<le> 100" using a(3) by simp
  then have "js_le (rnd (a * 100)) (Num 100)" by (rule rounding_le [OF assms(1) _ hundred])
  then show ?thesis using S by (simp add: a(1))
qed

lemma fl_add_grows:
  assumes "rounding rnd"
    and "s = PosInf \<or> (\<exists>y. s = Num y \<and> 0 \<le> y \<and> rnd y = Num y)"
    and "p = PosInf \<or> (\<exists>y. p = Num y \<and> 0 \<le> y \<and> rnd y = Num y)"
  shows "js_le s (fl_add rnd s p) \<and>
         (fl_add rnd s p = PosInf \<or> (\<exists>y. fl_add rnd s p = Num y \<and> 0 \<le> y \<and> rnd y = Num y))"
proof (cases "s = PosInf \<or> p = PosInf")
  case True
  then show ?thesis using assms(2,3) by auto
next
  case False
  then obtain a b where s: "s = Num a" "0 \<le> a" "rnd a = Num a" and p: "p = Num b" "0 \<le> b"
    using assms(2,3) by auto
  have "js_le (rnd a) (rnd (a + b))" using assms(1) p(2) by (intro rounding_mono) simp_all
  then have le: "js_le (Num a) (rnd (a + b))" by (simp add: s(3))
  from rounding_nonneg [OF assms(1), of "a + b"] s(2) p(2)
  have "rnd (a + b) = PosInf \<or> (\<exists>y. rnd (a + b) = Num y \<and> 0 \<le> y \<and> rnd y = Num y)" by simp
  then show ?thesis using le by (simp add: s(1) p(1))
qed

lemma js_le_trans_nonneg:
  "js_le a b \<Longrightarrow> js_le b c \<Longrightarrow> js_le a c"
  by (cases a; cases b; cases c) auto

lemma foldl_fl_add_grows:
  assumes "rounding rnd"
  shows "s = PosInf \<or> (\<exists>y. s = Num y \<and> 0 \<le> y \<and> rnd y = Num y) \<Longrightarrow>
    \<forall>p \<in> set ps. p = PosInf \<or> (\<exists>y. p = Num y \<and> 0 \<le> y \<and> rnd y = Num y) \<Longrightarrow>
    js_le s (foldl (fl_add rnd) s ps)"
proof (induction ps arbitrary: s)
  case Nil
  then show ?case by auto
next
  case (Cons p ps)
  from fl_add_grows [OF assms Cons.prems(1), of p] Cons.prems(2)
  have step: "js_le s (fl_add rnd s p)"
    and good: "fl_add rnd s p = PosInf \<or> (\<exists>y. fl_add rnd s p = Num y \<and> 0 \<le> y \<and> rnd y = Num y)"
    by auto
  from Cons.IH [OF good] Cons.prems(2)
  have "js_le (fl_add rnd s p) (foldl (fl_add rnd) (fl_add rnd s p) ps)" by simp
  with step show ?case by (auto intro: js_le_trans_nonneg)
qed


lemma js_or_number_nonneg:
  "p = PosInf \<or> (\<exists>y. p = Num y \<and> 0 \<le> y \<and> rnd y = Num y) \<Longrightarrow> js_or_number (Some p) (Num 0) = p"
  by (auto simp: js_or_number_def)

lemma fl_add_zero:
  "p = PosInf \<or> (\<exists>y. p = Num y \<and> 0 \<le> y \<and> rnd y = Num y) \<Longrightarrow> fl_add rnd (Num 0) p = p"
  by auto

text \<open>The analysis returns a result when its three upstream answers arrive.\<close>

lemma topHolders_returns:
  assumes "32 \<le> length mint"
    and "\<not> isl (rpc_getProgramAccounts u TOKEN_PROGRAM mint)"
    and "\<not> isl (rpc_getProgramAccounts u TOKEN_2022_PROGRAM mint)"
    and "\<not> isl (rpc_getTokenSupply u mint)"
  shows "\<not> isl (topHolders rnd u mint limit)"
  using assms
  by (auto simp: topHolders_def getProgramAccountsByMint_def getMintSupply_def assertPubkey_def
      await_def Let_def split: sum.splits prod.splits)

text \<open>
  Claim C8, as the code has it. In every result of \<^verbatim>\<open>topHolders\<close> with a positive ui
  supply, \<open>0 \<le> top1 \<le> top10\<close> and every entry's percentage is at least 0. When
  moreover no returned entry holds more than the ui supply, every entry's percentage
  and top-1 are at most 100. The code reads the accounts and the supply in separate
  requests and does not check one against the other; and since every quotient, product
  and sum is rounded, nothing is said of \<open>top10 \<le> 100\<close>.
\<close>

theorem holder_concentration_bounds:
  assumes "rounding rnd"
    and "topHolders rnd u mint limit = Inr h"
    and "0 < supply_ui h"
  shows "js_le (Num 0) (concentration_top1_pct h) \<and>
         js_le (concentration_top1_pct h) (concentration_top10_pct h) \<and>
         (\<forall>e \<in> set (top_holders h). js_le (Num 0) (pct_of_supply e)) \<and>
         ((\<forall>e \<in> set (top_holders h). holder_amount e \<le> supply_ui h) \<longrightarrow>
            js_le (concentration_top1_pct h) (Num 100) \<and>
            (\<forall>e \<in> set (top_holders h). js_le (pct_of_supply e) (Num 100)))"
proof -
  define S where "S = supply_ui h"
  define P where "P = (\<lambda>x. fl_mul rnd (fl_div rnd (Num x) (Num S)) (Num 100))"
  have S: "0 < S" using assms(3) by (simp add: S_def)
  from topHolders_shape [OF assms(2)] obtain T where
    pos: "\<forall>x \<in> set T. 0 < snd x"
    and th: "top_holders h =
       map (\<lambda>(i, x). \<lparr>rank = i + 1, holder_owner = fst x, holder_amount = snd x,
              pct_of_supply =
                (if supply_ui h \<noteq> 0
                 then fl_mul rnd (fl_div rnd (Num (snd x)) (Num (supply_ui h))) (Num 100)
                 else Num 0)\<rparr>) (enumerate 0 T)"
    and t1: "concentration_top1_pct h =
       js_or_number (case top_holders h of [] \<Rightarrow> None | e # _ \<Rightarrow> Some (pct_of_supply e)) (Num 0)"
    and t10: "concentration_top10_pct h =
       foldl (\<lambda>s x. fl_add rnd s (pct_of_supply x)) (Num 0) (take 10 (top_holders h))"
    by blast
  have entry: "0 < holder_amount e \<and> pct_of_supply e = P (holder_amount e)"
    if "e \<in> set (top_holders h)" for e
  proof -
    from that obtain p where p: "p \<in> set (enumerate 0 T)"
      and e: "e = (case p of (i, x) \<Rightarrow> \<lparr>rank = i + 1, holder_owner = fst x, holder_amount = snd x,
              pct_of_supply =
                (if supply_ui h \<noteq> 0
                 then fl_mul rnd (fl_div rnd (Num (snd x)) (Num (supply_ui h))) (Num 100)
                 else Num 0)\<rparr>)"
      unfolding th by auto
    have "snd p \<in> set T" using p nth_mem [of "fst p" T] by (auto simp: in_set_enumerate_eq)
    then have "0 < snd (snd p)" using pos by blast
    then show ?thesis
      unfolding e P_def using assms(3) by (cases p) (simp add: S_def)
  qed
  have good: "pct_of_supply e = PosInf \<or>
      (\<exists>y. pct_of_supply e = Num y \<and> 0 \<le> y \<and> rnd y = Num y)"
    if "e \<in> set (top_holders h)" for e
    using entry [OF that] pct_nonneg [OF assms(1) S, of "holder_amount e"] by (simp add: P_def)
  have lower: "\<forall>e \<in> set (top_holders h). js_le (Num 0) (pct_of_supply e)"
    using good by fastforce
  have upper: "\<forall>e \<in> set (top_holders h). js_le (pct_of_supply e) (Num 100)"
    if le: "\<forall>e \<in> set (top_holders h). holder_amount e \<le> supply_ui h"
  proof
    fix e assume e: "e \<in> set (top_holders h)"
    from entry [OF e] le e have "0 < holder_amount e" "holder_amount e \<le> S"
      by (auto simp: S_def)
    from pct_le_100 [OF assms(1) S this] entry [OF e]
    show "js_le (pct_of_supply e) (Num 100)" by (simp add: P_def)
  qed
  have sum: "concentration_top10_pct h =
      foldl (fl_add rnd) (Num 0) (map pct_of_supply (take 10 (top_holders h)))"
    unfolding t10 by (simp add: foldl_map)
  show ?thesis
  proof (cases "top_holders h")
    case Nil
    then show ?thesis using t1 t10 by (simp add: js_or_number_def)
  next
    case (Cons e es)
    have e: "e \<in> set (top_holders h)" using Cons by simp
    have ge: "pct_of_supply e = PosInf \<or>
      (\<exists>y. pct_of_supply e = Num y \<and> 0 \<le> y \<and> rnd y = Num y)"
      by (rule good [OF e])
    have top1: "concentration_top1_pct h = pct_of_supply e"
      unfolding t1 Cons using js_or_number_nonneg [OF ge] by simp
    have rest: "\<forall>p \<in> set (map pct_of_supply (take 9 es)).
        p = PosInf \<or> (\<exists>y. p = Num y \<and> 0 \<le> y \<and> rnd y = Num y)"
    proof
      fix p assume "p \<in> set (map pct_of_supply (take 9 es))"
      then obtain e' where "e' \<in> set (take 9 es)" "p = pct_of_supply e'" by auto
      moreover from this have "e' \<in> set (top_holders h)"
        using Cons set_take_subset [of 9 es] by auto
      ultimately show "p = PosInf \<or> (\<exists>y. p = Num y \<and> 0 \<le> y \<and> rnd y = Num y)"
        using good by simp
    qed
    have "take 10 (e # es) = e # take 9 es" by (simp add: take_Cons')
    then have top10: "concentration_top10_pct h =
        foldl (fl_add rnd) (pct_of_supply e) (map pct_of_supply (take 9 es))"
      unfolding sum Cons using fl_add_zero [OF ge] by simp
    have grows: "js_le (concentration_top1_pct h) (concentration_top10_pct h)"
      unfolding top1 top10 by (rule foldl_fl_add_grows [OF assms(1) ge rest])
    have nonneg: "js_le (Num 0) (concentration_top1_pct h)"
      unfolding top1 using lower e by blast
    have top1_upper: "js_le (concentration_top1_pct h) (Num 100)"
      if "\<forall>e \<in> set (top_holders h). holder_amount e \<le> supply_ui h"
      unfolding top1 using upper [OF that] e by blast
    show ?thesis using nonneg grows lower upper top1_upper by blast
  qed
qed

text \<open>
  Balances 600, 300 and 100 over a supply of 1000, limit 2: the entries are 60 and 30
  percent, top-1 is 60 and top-10 is 90.
\<close>

theorem holder_concentration_bounds_witness:
  "topHolders exact (mint_chain 1000 0 three_holders) token_mint 2 =
     Inr \<lparr>supply_ui = 1000, total_accounts = 3,
          top_holders =
            [\<lparr>rank = 1, holder_owner = ''alice'', holder_amount = 600, pct_of_supply = Num 60\<rparr>,
             \<lparr>rank = 2, holder_owner = ''bob'', holder_amount = 300, pct_of_supply = Num 30\<rparr>],
          concentration_top1_pct = Num 60, concentration_top10_pct = Num 90\<rparr> \<and>
   js_le (Num 0) (Num 60) \<and> js_le (Num 60) (Num 90) \<and> js_le (Num 60) (Num 100) \<and>
   js_le (Num 30) (Num 100)"
proof -
  have ev: "topHolders exact (mint_chain 1000 0 three_holders) token_mint 2 =
     Inr \<lparr>supply_ui = 1000, total_accounts = 3,
          top_holders =
            [\<lparr>rank = 1, holder_owner = ''alice'', holder_amount = 600, pct_of_supply = Num 60\<rparr>,
             \<lparr>rank = 2, holder_owner = ''bob'', holder_amount = 300, pct_of_supply = Num 30\<rparr>],
          concentration_top1_pct = Num 60, concentration_top10_pct = Num 90\<rparr>"
    by (simp add: topHolders_def getProgramAccountsByMint_def getMintSupply_def assertPubkey_def
        uiFromRaw_def scenario_defs Let_def js_or_def js_or_number_def exact_def await_def)
  show ?thesis
    using holder_concentration_bounds [OF rounding_exact ev] by (simp add: ev)
qed

text \<open>
  The same accounts against a supply answer of 500, as when the account list, read at
  commitment \<^verbatim>\<open>confirmed\<close>, already shows newly minted tokens and the supply, read at
  the default commitment, does not yet: top-1 is 120 percent.
\<close>

theorem stale_supply_exceeds_100:
  "topHolders exact (mint_chain 500 0 three_holders) token_mint 2 =
     Inr \<lparr>supply_ui = 500, total_accounts = 3,
          top_holders =
            [\<lparr>rank = 1, holder_owner = ''alice'', holder_amount = 600, pct_of_supply = Num 120\<rparr>,
             \<lparr>rank = 2, holder_owner = ''bob'', holder_amount = 300, pct_of_supply = Num 60\<rparr>],
          concentration_top1_pct = Num 120, concentration_top10_pct = Num 180\<rparr> \<and>
   \<not> js_le (Num 120) (Num 100) \<and> \<not> js_le (Num 180) (Num 100)"
  by (simp add: topHolders_def getProgramAccountsByMint_def getMintSupply_def assertPubkey_def
      uiFromRaw_def scenario_defs Let_def js_or_def js_or_number_def exact_def await_def)

section \<open>Activity windows\<close>

text \<open>What one counted transaction adds to a window: one transaction and its USDC volume.\<close>

lemma fst_count_transfer:
  "fst (count_transfer w t st) =
     (if t_mint t = Some USDC_MINT
      then update_stats w (\<lambda>s. s\<lparr>volume_usdc := volume_usdc s + \<bar>js_or (tokenAmount t) 0\<bar>\<rparr>) (fst st)
      else fst st)"
  by (simp add: count_transfer_def Let_def)

lemma fold_count_transfer:
  "fst (fold (count_transfer w) ts st) w' =
     (if w' = w
      then map_option (\<lambda>s. s\<lparr>volume_usdc := volume_usdc s +
              (\<Sum>t \<leftarrow> ts. if t_mint t = Some USDC_MINT then \<bar>js_or (tokenAmount t) 0\<bar> else 0)\<rparr>)
             (fst st w)
      else fst st w')"
proof (induction ts arbitrary: st)
  case Nil
  show ?case by (cases "fst st w") auto
next
  case (Cons t ts)
  show ?case
    by (cases "fst st w")
       (auto simp: Cons fst_count_transfer update_stats_def add.assoc)
qed

lemma count_in_window_at:
  "fst (count_in_window dtMin it w st) w' =
     (if w' = w \<and> dtMin \<le> w
      then map_option (\<lambda>s. s\<lparr>tx := tx s + 1, volume_usdc := volume_usdc s +
              (\<Sum>t \<leftarrow> (case tokenTransfers it of None \<Rightarrow> [] | Some ts \<Rightarrow> ts).
                  if t_mint t = Some USDC_MINT then \<bar>js_or (tokenAmount t) 0\<bar> else 0)\<rparr>)
             (fst st w)
      else fst st w')"
  by (cases "fst st w") (auto simp: count_in_window_def fold_count_transfer update_stats_def)

lemma fold_count_in_window:
  "distinct ws \<Longrightarrow>
   fst (fold (count_in_window dtMin it) ws st) w' =
     (if w' \<in> set ws \<and> dtMin \<le> w'
      then map_option (\<lambda>s. s\<lparr>tx := tx s + 1, volume_usdc := volume_usdc s +
              (\<Sum>t \<leftarrow> (case tokenTransfers it of None \<Rightarrow> [] | Some ts \<Rightarrow> ts).
                  if t_mint t = Some USDC_MINT then \<bar>js_or (tokenAmount t) 0\<bar> else 0)\<rparr>)
             (fst st w')
      else fst st w')"
proof (induction ws arbitrary: st)
  case Nil
  show ?case by simp
next
  case (Cons w ws)
  then have d: "distinct ws" and nin: "w \<notin> set ws" by auto
  show ?case
    using nin by (auto simp: Cons.IH [OF d] count_in_window_at)
qed

lemma legs_volume_nonneg:
  "0 \<le> (\<Sum>t \<leftarrow> ts. if t_mint t = Some USDC_MINT then \<bar>js_or (tokenAmount t) 0\<bar> else (0::real))"
  by (rule sum_list_nonneg) auto

text \<open>The invariant: every window is present, and counts and volumes grow with the window.\<close>

lemma scan_transaction_nested:
  assumes "distinct ws"
    and "\<forall>w \<in> set ws. w \<in> dom (fst st)"
    and "\<forall>w1 \<in> set ws. \<forall>w2 \<in> set ws. w1 < w2 \<longrightarrow>
           tx_count (fst st) w1 \<le> tx_count (fst st) w2 \<and> volume (fst st) w1 \<le> volume (fst st) w2"
  shows "(\<forall>w \<in> set ws. w \<in> dom (fst (scan_transaction n ws it st))) \<and>
         (\<forall>w1 \<in> set ws. \<forall>w2 \<in> set ws. w1 < w2 \<longrightarrow>
           tx_count (fst (scan_transaction n ws it st)) w1 \<le> tx_count (fst (scan_transaction n ws it st)) w2 \<and>
           volume (fst (scan_transaction n ws it st)) w1 \<le> volume (fst (scan_transaction n ws it st)) w2)"
proof (cases "(case blockTime it of None \<Rightarrow> 0 | Some b \<Rightarrow> b) = 0")
  case True
  then have "scan_transaction n ws it st = st" by (simp add: scan_transaction_def)
  then show ?thesis using assms by simp
next
  case False
  define d where "d = real_of_int (n - (case blockTime it of None \<Rightarrow> 0 | Some b \<Rightarrow> b)) / 60"
  define V where "V = (\<Sum>t \<leftarrow> (case tokenTransfers it of None \<Rightarrow> [] | Some ts \<Rightarrow> ts).
                  if t_mint t = Some USDC_MINT then \<bar>js_or (tokenAmount t) 0\<bar> else (0::real))"
  have V: "0 \<le> V" unfolding V_def by (rule legs_volume_nonneg)
  have eq: "scan_transaction n ws it st = fold (count_in_window d it) ws st"
    using False by (simp add: scan_transaction_def Let_def d_def)
  have at: "fst (scan_transaction n ws it st) w =
      (if d \<le> w then map_option (\<lambda>s. s\<lparr>tx := tx s + 1, volume_usdc := volume_usdc s + V\<rparr>) (fst st w)
       else fst st w)" if "w \<in> set ws" for w
    unfolding eq V_def using that by (simp add: fold_count_in_window [OF assms(1)])
  have txc: "tx_count (fst (scan_transaction n ws it st)) w =
      tx_count (fst st) w + (if d \<le> w then 1 else 0)" if "w \<in> set ws" for w
    using that assms(2) by (auto simp: at tx_count_def)
  have vol: "volume (fst (scan_transaction n ws it st)) w =
      volume (fst st) w + (if d \<le> w then V else 0)" if "w \<in> set ws" for w
    using that assms(2) by (auto simp: at volume_def)
  have dom: "\<forall>w \<in> set ws. w \<in> dom (fst (scan_transaction n ws it st))"
    using assms(2) by (auto simp: at)
  have mono: "tx_count (fst (scan_transaction n ws it st)) w1 \<le> tx_count (fst (scan_transaction n ws it st)) w2 \<and>
           volume (fst (scan_transaction n ws it st)) w1 \<le> volume (fst (scan_transaction n ws it st)) w2"
    if "w1 \<in> set ws" "w2 \<in> set ws" "w1 < w2" for w1 w2
  proof -
    have old: "tx_count (fst st) w1 \<le> tx_count (fst st) w2" "volume (fst st) w1 \<le> volume (fst st) w2"
      using assms(3) that by auto
    show ?thesis
      using old V that(3) by (auto simp: txc [OF that(1)] txc [OF that(2)] vol [OF that(1)] vol [OF that(2)])
  qed
  show ?thesis using dom mono by blast
qed

lemma fold_scan_transaction_nested:
  assumes "distinct ws"
  shows "(\<forall>w \<in> set ws. w \<in> dom (fst st)) \<Longrightarrow>
    (\<forall>w1 \<in> set ws. \<forall>w2 \<in> set ws. w1 < w2 \<longrightarrow>
           tx_count (fst st) w1 \<le> tx_count (fst st) w2 \<and> volume (fst st) w1 \<le> volume (fst st) w2) \<Longrightarrow>
    (\<forall>w \<in> set ws. w \<in> dom (fst (fold (scan_transaction n ws) arr st))) \<and>
         (\<forall>w1 \<in> set ws. \<forall>w2 \<in> set ws. w1 < w2 \<longrightarrow>
           tx_count (fst (fold (scan_transaction n ws) arr st)) w1 \<le> tx_count (fst (fold (scan_transaction n ws) arr st)) w2 \<and>
           volume (fst (fold (scan_transaction n ws) arr st)) w1 \<le> volume (fst (fold (scan_transaction n ws) arr st)) w2)"
proof (induction arr arbitrary: st)
  case Nil
  then show ?case by simp
next
  case (Cons it arr)
  from scan_transaction_nested [OF assms Cons.prems, of n it]
  show ?case by (simp only: fold_simps) (intro Cons.IH, simp_all)
qed

lemma scan_addresses_nested:
  assumes "distinct ws"
  shows "scan_addresses u ws addresses st = Inr st' \<Longrightarrow>
    (\<forall>w \<in> set ws. w \<in> dom (fst st)) \<Longrightarrow>
    (\<forall>w1 \<in> set ws. \<forall>w2 \<in> set ws. w1 < w2 \<longrightarrow>
           tx_count (fst st) w1 \<le> tx_count (fst st) w2 \<and> volume (fst st) w1 \<le> volume (fst st) w2) \<Longrightarrow>
    (\<forall>w \<in> set ws. w \<in> dom (fst st')) \<and>
         (\<forall>w1 \<in> set ws. \<forall>w2 \<in> set ws. w1 < w2 \<longrightarrow>
           tx_count (fst st') w1 \<le> tx_count (fst st') w2 \<and> volume (fst st') w1 \<le> volume (fst st') w2)"
proof (induction addresses arbitrary: st)
  case Nil
  then show ?case by simp
next
  case (Cons addr addresses)
  from Cons.prems(1) obtain arr where arr: "heliusGET_history u addr = Inr arr"
    and rest: "scan_addresses u ws addresses (fold (scan_transaction (now u) ws) arr st) = Inr st'"
    by (cases "heliusGET_history u addr") auto
  from fold_scan_transaction_nested [OF assms Cons.prems(2,3), of "now u" arr]
  show ?case by (intro Cons.IH [OF rest]) simp_all
qed


lemma fold_init_results:
  "fold (\<lambda>w res. res(w \<mapsto> z)) ws m w' = (if w' \<in> set ws then Some z else m w')"
  by (induction ws arbitrary: m) auto

lemma fold_unique_actors:
  "tx_count (fold (\<lambda>w res. update_stats w (\<lambda>s. s\<lparr>unique_actors := f w\<rparr>) res) ws res) w' = tx_count res w' \<and>
   volume (fold (\<lambda>w res. update_stats w (\<lambda>s. s\<lparr>unique_actors := f w\<rparr>) res) ws res) w' = volume res w' \<and>
   (w' \<in> dom (fold (\<lambda>w res. update_stats w (\<lambda>s. s\<lparr>unique_actors := f w\<rparr>) res) ws res) \<longleftrightarrow> w' \<in> dom res)"
proof (induction ws arbitrary: res)
  case Nil
  show ?case by simp
next
  case (Cons w ws)
  have one: "tx_count (update_stats w (\<lambda>s. s\<lparr>unique_actors := f w\<rparr>) res) w' = tx_count res w' \<and>
     volume (update_stats w (\<lambda>s. s\<lparr>unique_actors := f w\<rparr>) res) w' = volume res w' \<and>
     (w' \<in> dom (update_stats w (\<lambda>s. s\<lparr>unique_actors := f w\<rparr>) res) \<longleftrightarrow> w' \<in> dom res)"
    by (cases "res w") (auto simp: update_stats_def tx_count_def volume_def)
  show ?case
    using Cons [of "update_stats w (\<lambda>s. s\<lparr>unique_actors := f w\<rparr>) res"] one by simp
qed

text \<open>The aggregation returns a result when the history of every address arrives.\<close>

lemma scan_addresses_returns:
  "\<forall>a \<in> set addresses. \<not> isl (heliusGET_history u a) \<Longrightarrow>
   \<not> isl (scan_addresses u ws addresses st)"
proof (induction addresses arbitrary: st)
  case Nil
  show ?case by simp
next
  case (Cons addr addresses)
  then obtain arr where "heliusGET_history u addr = Inr arr"
    by (cases "heliusGET_history u addr") auto
  then show ?case using Cons by simp
qed

lemma activityWindows_returns:
  assumes "\<forall>a \<in> set addresses. \<not> isl (heliusGET_history u a)"
  shows "\<not> isl (activityWindows u addresses ws)"
proof -
  define st0 :: "results \<times> actor_sets" where "st0 =
    (fold (\<lambda>w res. res(w \<mapsto> \<lparr>tx = 0, volume_usdc = 0, unique_actors = 0\<rparr>)) ws Map.empty,
     fold (\<lambda>w acts. acts(w \<mapsto> {})) ws Map.empty)"
  obtain st' where "scan_addresses u ws addresses st0 = Inr st'"
    using scan_addresses_returns [OF assms, of ws st0]
    by (cases "scan_addresses u ws addresses st0") auto
  then show ?thesis
    unfolding activityWindows_def Let_def st0_def
    by (simp add: await_def split: prod.splits)
qed

text \<open>
  Claim C4, as the code has it. When no window length is listed twice, every pair of
  listed windows \<open>w1 < w2\<close> satisfies \<open>tx_count(w1) \<le> tx_count(w2)\<close> and
  \<open>volume(w1) \<le> volume(w2)\<close> in the result of \<^verbatim>\<open>activityWindows\<close>: a transaction is
  counted into every listed window that is at least its age.
\<close>

theorem activity_windows_nested:
  assumes "distinct windowsMinutes"
    and "w1 \<in> set windowsMinutes" and "w2 \<in> set windowsMinutes" and "w1 < w2"
    and "activityWindows u addresses windowsMinutes = Inr res"
  shows "w1 \<in> dom res \<and> w2 \<in> dom res \<and>
         tx_count res w1 \<le> tx_count res w2 \<and> volume res w1 \<le> volume res w2"
proof -
  define results0 where "results0 =
    fold (\<lambda>w res. res(w \<mapsto> \<lparr>tx = 0, volume_usdc = 0, unique_actors = 0\<rparr>)) windowsMinutes Map.empty"
  define actorSets0 :: actor_sets where "actorSets0 =
    fold (\<lambda>w acts. acts(w \<mapsto> {})) windowsMinutes Map.empty"
  from assms(5) obtain st' where
    scan: "scan_addresses u windowsMinutes addresses (results0, actorSets0) = Inr st'"
    and res: "res = fold (\<lambda>w res. update_stats w
                (\<lambda>s. s\<lparr>unique_actors := (case snd st' w of None \<Rightarrow> 0 | Some A \<Rightarrow> card A)\<rparr>) res)
              windowsMinutes (fst st')"
    unfolding activityWindows_def Let_def results0_def [symmetric] actorSets0_def [symmetric]
    by (cases "scan_addresses u windowsMinutes addresses (results0, actorSets0)")
       (auto split: prod.splits)
  have init_dom: "\<forall>w \<in> set windowsMinutes. w \<in> dom (fst (results0, actorSets0))"
    by (simp add: results0_def fold_init_results domIff)
  have init_mono: "\<forall>w1 \<in> set windowsMinutes. \<forall>w2 \<in> set windowsMinutes. w1 < w2 \<longrightarrow>
      tx_count (fst (results0, actorSets0)) w1 \<le> tx_count (fst (results0, actorSets0)) w2 \<and>
      volume (fst (results0, actorSets0)) w1 \<le> volume (fst (results0, actorSets0)) w2"
    by (simp add: results0_def fold_init_results tx_count_def volume_def)
  from scan_addresses_nested [OF assms(1) scan init_dom init_mono] assms(2-4)
  have "w1 \<in> dom (fst st') \<and> w2 \<in> dom (fst st') \<and>
        tx_count (fst st') w1 \<le> tx_count (fst st') w2 \<and> volume (fst st') w1 \<le> volume (fst st') w2"
    by blast
  then show ?thesis
    unfolding res by (simp only: fold_unique_actors)
qed

lemmas activity_defs = activityWindows_def scan_transaction_def count_in_window_def
  count_transfer_def update_stats_def add_actor_def tx_count_def volume_def js_or_def
  two_transactions_def USDC_MINT_def token_mint_def Let_def

text \<open>
  Windows of 5 and 15 minutes over transactions aged one and eight minutes: one
  transaction and 40 USDC in the first window, two and 42 in the second.
\<close>

theorem activity_windows_nested_witness:
  "case activityWindows two_transactions [''pool''] [5, 15] of
     Inl e \<Rightarrow> False
   | Inr res \<Rightarrow>
       tx_count res 5 = 1 \<and> tx_count res 15 = 2 \<and> volume res 5 = 40 \<and> volume res 15 = 42 \<and>
       tx_count res 5 \<le> tx_count res 15 \<and> volume res 5 \<le> volume res 15"
proof (cases "activityWindows two_transactions [''pool''] [5, 15]")
  case (Inl e)
  then show ?thesis by (simp add: activity_defs)
next
  case (Inr res)
  have vals: "tx_count res 5 = 1 \<and> tx_count res 15 = 2 \<and> volume res 5 = 40 \<and> volume res 15 = 42"
    using Inr by (auto simp: activity_defs)
  have d: "distinct [5, 15 :: real]" by simp
  show ?thesis
    using activity_windows_nested [OF d _ _ _ Inr, of 5 15] vals by (simp add: Inr)
qed

text \<open>
  With the 5 minute window listed twice, the transaction aged one minute is counted
  twice into it: it then holds 2 transactions and 80 USDC, the 7 minute window 1
  transaction and 40 USDC.
\<close>

theorem repeated_window_counts_twice:
  "case activityWindows two_transactions [''pool''] [5, 5, 7] of
     Inl e \<Rightarrow> False
   | Inr res \<Rightarrow>
       tx_count res 5 = 2 \<and> tx_count res 7 = 1 \<and> volume res 5 = 80 \<and> volume res 7 = 40"
  by (simp add: activity_defs)

section \<open>VIP wallets\<close>

lemmas vip_defs = vipWalletsPresence_def vip_transaction_def vip_leg_def hits_get_def
  trim_def is_space_def two_transactions_def USDC_MINT_def token_mint_def Let_def

text \<open>
  Claim C9, where the code departs from it. With alice and bob as VIP addresses, bob is a
  counterparty of two legs of the scanned day, the to-side of alice's transfer and the
  from-side of his own; \<^verbatim>\<open>vipWalletsPresence\<close> counts one hit for him, since a leg
  whose from-side is a VIP address is counted for that side only.
\<close>

theorem vip_leg_between_two_vips:
  "vipWalletsPresence two_transactions [''alice'', ''bob''] [''pool''] =
     Inr \<lparr>vip_count = 2, vip_hits = [(''alice'', 1), (''bob'', 1)]\<rparr>"
  by (simp add: vip_defs)

end
